theory Spec2Isabelle
  imports Main "HOL-Library.Char_ord" "HOL-Library.List_Lexorder"
begin

section \<open>Python strings\<close>

text \<open>
  Strings are \<^typ>\<open>string\<close>; the order on them (used by \<^verbatim>\<open>sorted\<close>) is the
  lexicographic order on character codes, as Python compares \<^verbatim>\<open>str\<close> values.
  The output of a subprocess is taken as already decoded text.
\<close>

definition startswith :: "string \<Rightarrow> string \<Rightarrow> bool" where
  "startswith s p = (take (length p) s = p)"

text \<open>\<^verbatim>\<open>s.split(sep)\<close> for a separator that is not empty: the pieces between the
  non-overlapping occurrences of \<open>sep\<close>, found from the left. The second argument
  holds the piece being read.\<close>

function split_from :: "string \<Rightarrow> string \<Rightarrow> string \<Rightarrow> string list" where
  "split_from sep cur [] = [cur]"
| "split_from sep cur (c # cs) =
     (if sep \<noteq> [] \<and> startswith (c # cs) sep
      then cur # split_from sep [] (drop (length sep) (c # cs))
      else split_from sep (cur @ [c]) cs)"
  by pat_completeness auto
termination
  by (relation "measure (\<lambda>(sep, cur, s). length s)") auto

definition str_split :: "string \<Rightarrow> string \<Rightarrow> string list" where
  "str_split s sep = split_from sep [] s"

text \<open>\<^verbatim>\<open>sep.join(xs)\<close>.\<close>

fun str_join :: "string \<Rightarrow> string list \<Rightarrow> string" where
  "str_join sep [] = []"
| "str_join sep [x] = x"
| "str_join sep (x # y # ys) = x @ sep @ str_join sep (y # ys)"

text \<open>The characters \<^verbatim>\<open>str.strip()\<close> removes and \<^verbatim>\<open>\s\<close> matches, among the
  ASCII ones: tab, line feed, vertical tab, form feed, carriage return, the four
  separators 0x1C to 0x1F, and the space.\<close>

definition is_space :: "char \<Rightarrow> bool" where
  "is_space c = (c \<in> set [CHR 0x09, CHR 0x0A, CHR 0x0B, CHR 0x0C, CHR 0x0D,
                            CHR 0x1C, CHR 0x1D, CHR 0x1E, CHR 0x1F, CHR 0x20])"

definition strip_chars :: "(char \<Rightarrow> bool) \<Rightarrow> string \<Rightarrow> string" where
  "strip_chars P s = rev (dropWhile P (rev (dropWhile P s)))"

definition str_strip :: "string \<Rightarrow> string" where
  "str_strip s = strip_chars is_space s"

text \<open>\<^verbatim>\<open>s.lower()\<close> on ASCII text: the letters A to Z become a to z.\<close>

definition lower_char :: "char \<Rightarrow> char" where
  "lower_char c =
     (if CHR ''A'' \<le> c \<and> c \<le> CHR ''Z'' then char_of (of_char c + (32 :: nat)) else c)"

definition str_lower :: "string \<Rightarrow> string" where
  "str_lower s = map lower_char s"

text \<open>The text after the first occurrence of a literal, if there is one.\<close>

fun find_after :: "string \<Rightarrow> string \<Rightarrow> string option" where
  "find_after pat [] = (if pat = [] then Some [] else None)"
| "find_after pat (c # cs) =
     (if startswith (c # cs) pat then Some (drop (length pat) (c # cs))
      else find_after pat cs)"

text \<open>
  \<^verbatim>\<open>re.search(r"X509v3 Subject Alternative Name:(?: critical)?\s*(.*)", text)\<close>
  and its group 1. Everything after the literal always matches, so the leftmost
  occurrence of the literal is the match: the optional \<^verbatim>\<open> critical\<close> is taken
  when it is there, then all white space, then the characters up to the next line feed.
\<close>

definition re_search_san :: "string \<Rightarrow> string option" where
  "re_search_san text =
     (case find_after ''X509v3 Subject Alternative Name:'' text of
        None \<Rightarrow> None
      | Some rest \<Rightarrow>
          let r1 = (if startswith rest '' critical'' then drop (length '' critical'') rest
                    else rest);
              r2 = dropWhile is_space r1
          in Some (takeWhile (\<lambda>c. c \<noteq> CHR 0x0A) r2))"

section \<open>The world the daemon runs in\<close>

type_synonym path = string

text \<open>The exception classes that matter: \<^verbatim>\<open>IOError\<close> (Python 3's \<^verbatim>\<open>OSError\<close>
  family), \<^verbatim>\<open>ValueError\<close> and its subclasses, and the ones the main loop does not
  catch.\<close>

datatype py_error =
    IOError string
  | ValueError string
  | IndexError string
  | KeyError string
  | OtherError string

fun caught :: "py_error \<Rightarrow> bool" where
  "caught (IOError m) = True"
| "caught (ValueError m) = True"
| "caught e = False"

text \<open>What the daemon does to the outside, in the order it does it.\<close>

datatype event =
    Exec "string list"
  | CopyFile path path
  | WriteFile path string
  | AppendFile path string
  | RemoveFile path
  | AcmeGetCrt path string
  | UrlOpen string
  | LogInfo string
  | LogError string
  | Sleep

record world =
  files :: "path \<rightharpoonup> string"
  trace :: "event list"

text \<open>The module-level values read from the environment once, when the process starts.
  \<^verbatim>\<open>os.getenv("CRT_MAX_AGE", 30)\<close> is the text of the variable, or the integer 30
  when the variable is not set (\<open>None\<close> here).\<close>

record config =
  crt_max_age :: "string option"
  chained_crt :: string
  acme_ca :: string
  acme_intermediate :: string
  container_notify :: "string option"
  dh_max_age :: "string option"

text \<open>
  The collaborators, each a function of the world at the moment of the call (so that
  two calls may answer differently): a subprocess gives its return code, standard
  output and standard error; the clock gives naive local time in microseconds;
  \<^verbatim>\<open>strptime\<close> (with the format \<^verbatim>\<open>"%b %d %H:%M:%S %Y %Z"\<close>),
  \<^verbatim>\<open>strftime\<close> (with \<^verbatim>\<open>"%Y%m%d_%H%M%S"\<close>) and \<^verbatim>\<open>int\<close> are
  Python's own, and the only exception of \<^verbatim>\<open>strptime\<close> and \<^verbatim>\<open>int\<close> on a
  string is \<^verbatim>\<open>ValueError\<close> (\<open>Inl\<close> its message); \<^verbatim>\<open>acme_tiny.get_crt\<close> and
  \<^verbatim>\<open>urlopen(...).read().decode("utf8")\<close> return or raise; \<^verbatim>\<open>configparser\<close>
  gives the sections of a file in order, each with its lookup
  \<^verbatim>\<open>config[section][key]\<close>. Files are a map from paths, as written, to contents;
  a copy fails only for a missing source, and what a subprocess or the CA client does to
  files of its own is outside the model, but for the file \<^verbatim>\<open>openssl dhparam\<close> writes.
\<close>

record env =
  run_process :: "world \<Rightarrow> string list \<Rightarrow> int \<times> string \<times> string"
  now :: "world \<Rightarrow> int"
  getmtime :: "world \<Rightarrow> path \<Rightarrow> int"
  strptime :: "string \<Rightarrow> string + int"
  strftime :: "int \<Rightarrow> string"
  py_int :: "string \<Rightarrow> string + int"
  acme_get_crt :: "world \<Rightarrow> path \<Rightarrow> string \<Rightarrow> py_error + string"
  urlopen_read :: "world \<Rightarrow> string \<Rightarrow> py_error + string"
  dhparam_pem :: "world \<Rightarrow> string"
  environ :: "(string \<times> string) list"
  configparser_read :: "world \<Rightarrow> path \<Rightarrow> py_error + (string \<times> (string \<Rightarrow> py_error + string)) list"
  marker_touched :: "world \<Rightarrow> bool"

definition crt_dir :: string where "crt_dir = ''crt/''"
definition crt_bak_dir :: string where "crt_bak_dir = ''crt/backup/''"
definition tmp_dir :: string where "tmp_dir = ''/tmp/''"
definition acme_challenge_dir :: string where "acme_challenge_dir = ''acme_challenge/''"

definition crt_file :: "string \<Rightarrow> path" where
  "crt_file name = crt_dir @ ''/'' @ name @ ''.crt''"

definition csr_file :: "string \<Rightarrow> path" where
  "csr_file name = crt_dir @ ''/'' @ name @ ''.csr''"

definition key_file :: "string \<Rightarrow> path" where
  "key_file name = crt_dir @ ''/'' @ name @ ''.key''"

definition bak_key_file :: "string \<Rightarrow> string \<Rightarrow> path" where
  "bak_key_file stamp name = crt_bak_dir @ ''/'' @ stamp @ ''_'' @ name @ ''.key''"

definition bak_crt_file :: "string \<Rightarrow> string \<Rightarrow> path" where
  "bak_crt_file stamp name = crt_bak_dir @ ''/'' @ stamp @ ''_'' @ name @ ''.crt''"

definition isfile :: "world \<Rightarrow> path \<Rightarrow> bool" where
  "isfile w p = (files w p \<noteq> None)"

definition emit :: "event \<Rightarrow> world \<Rightarrow> world" where
  "emit ev w = w\<lparr>trace := trace w @ [ev]\<rparr>"

text \<open>\<^verbatim>\<open>subprocess.Popen(argv, ...).communicate()\<close>.\<close>

definition popen :: "env \<Rightarrow> string list \<Rightarrow> world \<Rightarrow> (int \<times> string \<times> string) \<times> world" where
  "popen ev argv w = (run_process ev w argv, emit (Exec argv) w)"

text \<open>\<^verbatim>\<open>shutil.copyfile(src, dst)\<close>: a missing source raises.\<close>

definition copyfile :: "path \<Rightarrow> path \<Rightarrow> world \<Rightarrow> (py_error + unit) \<times> world" where
  "copyfile src dst w =
     (case files w src of
        None \<Rightarrow> (Inl (IOError (''No such file or directory: '' @ src)), w)
      | Some c \<Rightarrow> (Inr (), emit (CopyFile src dst) (w\<lparr>files := (files w)(dst \<mapsto> c)\<rparr>)))"

definition put_file :: "path \<Rightarrow> string \<Rightarrow> world \<Rightarrow> world" where
  "put_file p c w = w\<lparr>files := (files w)(p \<mapsto> c)\<rparr>"

text \<open>\<^verbatim>\<open>with open(p, "w") as file: file.write(c)\<close>.\<close>

definition write_file :: "path \<Rightarrow> string \<Rightarrow> world \<Rightarrow> world" where
  "write_file p c w = emit (WriteFile p c) (w\<lparr>files := (files w)(p \<mapsto> c)\<rparr>)"

text \<open>\<^verbatim>\<open>with open(p, "a") as file: file.write(c)\<close>.\<close>

definition append_file :: "path \<Rightarrow> string \<Rightarrow> world \<Rightarrow> world" where
  "append_file p c w =
     emit (AppendFile p c)
       (w\<lparr>files := (files w)(p \<mapsto> (case files w p of None \<Rightarrow> c | Some old \<Rightarrow> old @ c))\<rparr>)"

definition log_info :: "string \<Rightarrow> world \<Rightarrow> world" where
  "log_info m w = emit (LogInfo m) w"

text \<open>\<^verbatim>\<open>str(e)\<close> of an exception: its message.\<close>

fun err_msg :: "py_error \<Rightarrow> string" where
  "err_msg (IOError m) = m"
| "err_msg (ValueError m) = m"
| "err_msg (IndexError m) = m"
| "err_msg (KeyError m) = m"
| "err_msg (OtherError m) = m"

definition log_error :: "string \<Rightarrow> world \<Rightarrow> world" where
  "log_error m w = emit (LogError m) w"

text \<open>\<^verbatim>\<open>timedelta.days\<close> of a difference given in microseconds: the floor.\<close>

definition days :: "int \<Rightarrow> int" where
  "days delta = delta div 86400000000"

text \<open>\<^verbatim>\<open>int(crt_max_age)\<close>.\<close>

definition int_crt_max_age :: "env \<Rightarrow> config \<Rightarrow> py_error + int" where
  "int_crt_max_age ev cfg =
     (case crt_max_age cfg of
        None \<Rightarrow> Inr 30
      | Some s \<Rightarrow> (case py_int ev s of Inl m \<Rightarrow> Inl (ValueError m) | Inr n \<Rightarrow> Inr n))"

section \<open>The functions of app.py\<close>

text \<open>The domain list of the CSR text dump: the entries after \<^verbatim>\<open>DNS:\<close>, sorted.\<close>

definition san_domains :: "string \<Rightarrow> string list" where
  "san_domains out =
     (let sans_parts = (case re_search_san out of None \<Rightarrow> [] | Some g \<Rightarrow> str_split g '', '')
      in sort (map (\<lambda>part. str_split part '':'' ! 1)
                 (filter (\<lambda>part. startswith part ''DNS:'') sans_parts)))"

definition check_crt ::
  "env \<Rightarrow> config \<Rightarrow> string \<Rightarrow> string list \<Rightarrow> world \<Rightarrow> (py_error + bool) \<times> world" where
  "check_crt ev cfg name domains w =
     (if \<not> isfile w (crt_file name) \<or> \<not> isfile w (csr_file name) then (Inr False, w)
      else
        let ((rc, out, err), w1) =
              popen ev [''openssl'', ''req'', ''-noout'', ''-text'', ''-in'', csr_file name] w
        in if rc \<noteq> 0 then (Inl (IOError (''OpenSSL Error: '' @ err)), w1)
           else
             let csr_domains = san_domains out
             in if csr_domains \<noteq> domains then (Inr False, w1)
                else
                  let ((rc2, out2, err2), w2) =
                        popen ev [''openssl'', ''x509'', ''-noout'', ''-startdate'',
                                  ''-in'', crt_file name] w1
                  in if rc2 \<noteq> 0 then (Inl (IOError (''OpenSSL Error: '' @ err2)), w2)
                     else
                       (case str_split (str_strip out2) ''='' of
                          a # d # rest \<Rightarrow>
                            (case strptime ev d of
                               Inl m \<Rightarrow> (Inl (ValueError m), w2)
                             | Inr start_time \<Rightarrow>
                                 let age = days (now ev w2 - start_time)
                                 in (case int_crt_max_age ev cfg of
                                       Inl e \<Rightarrow> (Inl e, w2)
                                     | Inr n \<Rightarrow> (Inr (age < n), w2)))
                        | _ \<Rightarrow> (Inl (IndexError ''list index out of range''), w2)))"

definition exist_key :: "world \<Rightarrow> string \<Rightarrow> bool" where
  "exist_key w name = isfile w (key_file name)"

definition create_key :: "env \<Rightarrow> string \<Rightarrow> world \<Rightarrow> (py_error + unit) \<times> world" where
  "create_key ev name w =
     (case (if exist_key w name
            then copyfile (key_file name) (bak_key_file (strftime ev (now ev w)) name) w
            else (Inr (), w)) of
        (Inl e, w1) \<Rightarrow> (Inl e, w1)
      | (Inr u, w1) \<Rightarrow>
          let ((rc, out, err), w2) = popen ev [''openssl'', ''genrsa'', ''4096''] w1
          in if rc \<noteq> 0 then (Inl (IOError (''OpenSSL Error: '' @ err)), w2)
             else (Inr (), write_file (key_file name) out w2))"

definition create_csr ::
  "env \<Rightarrow> string \<Rightarrow> string list \<Rightarrow> world \<Rightarrow> (py_error + unit) \<times> world" where
  "create_csr ev name domains w =
     (let ssl_conf = tmp_dir @ ''openssl.cnf''
      in case copyfile ''/etc/ssl/openssl.cnf'' ssl_conf w of
           (Inl e, w1) \<Rightarrow> (Inl e, w1)
         | (Inr u, w1) \<Rightarrow>
             let w2 = append_file ssl_conf ([CHR 0x0A] @ ''[SAN]'' @ [CHR 0x0A]) w1;
                 w3 = append_file ssl_conf
                        (''subjectAltName=DNS:'' @ str_join '',DNS:'' domains) w2;
                 ((rc, out, err), w4) =
                    popen ev [''openssl'', ''req'', ''-new'', ''-sha256'',
                              ''-key'', key_file name,
                              ''-subj'', ''/'',
                              ''-reqexts'', ''SAN'',
                              ''-config'', ssl_conf] w3
             in if rc \<noteq> 0 then (Inl (IOError (''OpenSSL Error: '' @ err)), w4)
                else (Inr (), write_file (csr_file name) out w4))"

definition exist_crt :: "world \<Rightarrow> string \<Rightarrow> bool" where
  "exist_crt w name = isfile w (crt_file name)"

text \<open>\<^verbatim>\<open>acme_tiny.get_crt("config/account.key", csr, acme_challenge_dir, logger, acme_ca)\<close>
  and \<^verbatim>\<open>urlopen(url).read().decode("utf8")\<close>: each returns or raises.\<close>

definition get_crt :: "env \<Rightarrow> path \<Rightarrow> string \<Rightarrow> world \<Rightarrow> (py_error + string) \<times> world" where
  "get_crt ev csr ca w = (acme_get_crt ev w csr ca, emit (AcmeGetCrt csr ca) w)"

definition urlopen :: "env \<Rightarrow> string \<Rightarrow> world \<Rightarrow> (py_error + string) \<times> world" where
  "urlopen ev url w = (urlopen_read ev w url, emit (UrlOpen url) w)"

definition create_crt :: "env \<Rightarrow> config \<Rightarrow> string \<Rightarrow> world \<Rightarrow> (py_error + unit) \<times> world" where
  "create_crt ev cfg name w =
     (case (if exist_crt w name
            then copyfile (crt_file name) (bak_crt_file (strftime ev (now ev w)) name) w
            else (Inr (), w)) of
        (Inl e, w1) \<Rightarrow> (Inl e, w1)
      | (Inr u, w1) \<Rightarrow>
          (case get_crt ev (csr_file name) (acme_ca cfg) w1 of
             (Inl e, w2) \<Rightarrow> (Inl e, w2)
           | (Inr signed, w2) \<Rightarrow>
               (case (if chained_crt cfg = ''true''
                      then (case urlopen ev (acme_intermediate cfg) w2 of
                              (Inl e, w3) \<Rightarrow> (Inl e, w3)
                            | (Inr chain, w3) \<Rightarrow> (Inr (signed @ chain), w3))
                      else (Inr signed, w2)) of
                  (Inl e, w3) \<Rightarrow> (Inl e, w3)
                | (Inr signed_crt, w3) \<Rightarrow>
                    (Inr (), write_file (crt_file name) signed_crt w3))))"

fun notify_each :: "env \<Rightarrow> string list \<Rightarrow> world \<Rightarrow> world" where
  "notify_each ev [] w = w"
| "notify_each ev (container # rest) w =
     (let w1 = log_info (''Send SIGHUP to '' @ container) w;
          ((rc, out, err), w2) =
             popen ev [''docker'', ''kill'', ''-s'', ''SIGHUP'', container] w1;
          w3 = (if rc \<noteq> 0 then log_error (''Docker Error: '' @ err) w2 else w2)
      in notify_each ev rest w3)"

definition notify_container :: "env \<Rightarrow> string option \<Rightarrow> world \<Rightarrow> world" where
  "notify_container ev container_list w =
     (case container_list of
        None \<Rightarrow> w
      | Some cl \<Rightarrow>
          if cl = [] then w
          else notify_each ev (str_split (strip_chars (\<lambda>c. c = CHR '','') cl) '','') w)"

text \<open>The \<^verbatim>\<open>openssl dhparam -out\<close> subprocess writes the file itself; when it
  succeeds the file holds what it produced.\<close>

definition update_dhparam :: "env \<Rightarrow> config \<Rightarrow> world \<Rightarrow> (py_error + unit) \<times> world" where
  "update_dhparam ev cfg w =
     (case dh_max_age cfg of
        None \<Rightarrow> (Inr (), w)
      | Some s \<Rightarrow>
          if s = [] then (Inr (), w)
          else
            let dh_param_file = crt_dir @ ''/dhparam.pem''
            in (case (if isfile w dh_param_file
                     then (let age = days (now ev w - getmtime ev w dh_param_file)
                           in case py_int ev s of
                                Inl m \<Rightarrow> Inl (ValueError m)
                              | Inr n \<Rightarrow> Inr (age < n))
                     else Inr False) of
                 Inl e \<Rightarrow> (Inl e, w)
               | Inr True \<Rightarrow> (Inr (), w)
               | Inr False \<Rightarrow>
                   let w1 = log_info ''Create DH param file'' w;
                       ((rc, out, err), w2) =
                          popen ev [''openssl'', ''dhparam'', ''-out'', dh_param_file, ''2048''] w1
                   in if rc \<noteq> 0 then (Inl (IOError (''OpenSSL Error: '' @ err)), w2)
                      else (Inr (), put_file dh_param_file (dhparam_pem ev w1) w2)))"

section \<open>The main loop\<close>

text \<open>A \<^verbatim>\<open>dict\<close> keeps its keys in the order they were first set; setting a key
  that is there replaces its value in place.\<close>

fun dict_set :: "(string \<times> 'v) list \<Rightarrow> string \<Rightarrow> 'v \<Rightarrow> (string \<times> 'v) list" where
  "dict_set [] k v = [(k, v)]"
| "dict_set ((k', v') # rest) k v =
     (if k' = k then (k, v) # rest else (k', v') # dict_set rest k v)"

text \<open>\<^verbatim>\<open>sorted(filter(len, set(value.split(","))))\<close>.\<close>

definition domain_list :: "string \<Rightarrow> string list" where
  "domain_list v = sort (filter (\<lambda>d. length d \<noteq> 0) (remdups (str_split v '','')))"

text \<open>Lines 227 to 234: the certificates named by environment variables.\<close>

fun env_certs ::
  "(string \<times> string) list \<Rightarrow> (string \<times> string list) list \<Rightarrow> (string \<times> string list) list" where
  "env_certs [] certs = certs"
| "env_certs ((k, v) # rest) certs =
     (let key = str_lower k
      in if \<not> startswith key ''cert_'' then env_certs rest certs
         else env_certs rest (dict_set certs (drop 5 key) (domain_list v)))"

text \<open>Lines 241 to 244: the sections of the file, until a lookup raises.\<close>

fun load_sections ::
  "(string \<times> (string \<Rightarrow> py_error + string)) list \<Rightarrow>
   (string \<times> string list) list \<times> (string \<times> string) list \<Rightarrow>
   (string \<times> string list) list \<times> (string \<times> string) list" where
  "load_sections [] cn = cn"
| "load_sections ((crt, look) # rest) (certs, notifies) =
     (case look ''domains'' of
        Inl e \<Rightarrow> (certs, notifies)
      | Inr ds \<Rightarrow>
          let certs' = dict_set certs crt (domain_list ds)
          in (case look ''notify'' of
                Inl e \<Rightarrow> (certs', notifies)
              | Inr n \<Rightarrow> load_sections rest (certs', dict_set notifies crt n)))"

text \<open>Lines 226 to 247: both sources, the file after the environment; any exception
  of the file part is swallowed.\<close>

definition aggregate ::
  "env \<Rightarrow> world \<Rightarrow> (string \<times> string list) list \<times> (string \<times> string) list" where
  "aggregate ev w =
     (let certs = env_certs (environ ev) [];
          notifies = []
      in case configparser_read ev w (tmp_dir @ ''/crt_domains.ini'') of
           Inl e \<Rightarrow> (certs, notifies)
         | Inr sections \<Rightarrow> load_sections sections (certs, notifies))"

text \<open>Lines 252 to 267, the body of the \<^verbatim>\<open>try\<close>: the result is whether the
  certificate was issued (\<open>False\<close> after \<^verbatim>\<open>continue\<close>).\<close>

definition renew_cert ::
  "env \<Rightarrow> config \<Rightarrow> string \<Rightarrow> string list \<Rightarrow> world \<Rightarrow> (py_error + bool) \<times> world" where
  "renew_cert ev cfg crt domains w =
     (case check_crt ev cfg crt domains w of
        (Inl e, w1) \<Rightarrow> (Inl e, w1)
      | (Inr True, w1) \<Rightarrow>
          (Inr False, log_info (''['' @ crt @ ''] Certificate valid -> Skipping'') w1)
      | (Inr False, w1) \<Rightarrow>
          (case (if \<not> exist_key w1 crt
                 then create_key ev crt
                        (log_info (''['' @ crt @ ''] Generate RSA private key'') w1)
                 else (Inr (), w1)) of
             (Inl e, w2) \<Rightarrow> (Inl e, w2)
           | (Inr u, w2) \<Rightarrow>
               (case create_csr ev crt domains
                       (log_info (''['' @ crt @ ''] Generate CSR'') w2) of
                  (Inl e, w3) \<Rightarrow> (Inl e, w3)
                | (Inr u, w3) \<Rightarrow>
                    (case create_crt ev cfg crt w3 of
                       (Inl e, w4) \<Rightarrow> (Inl e, w4)
                     | (Inr u, w4) \<Rightarrow> (Inr True, w4)))))"

text \<open>Lines 250 to 272: the loop over the certificates; \<^verbatim>\<open>ValueError\<close> and
  \<^verbatim>\<open>IOError\<close> are logged and the loop goes on, any other exception leaves it.\<close>

fun renew_all ::
  "env \<Rightarrow> config \<Rightarrow> (string \<times> string list) list \<Rightarrow> bool \<Rightarrow> world \<Rightarrow> (py_error + bool) \<times> world" where
  "renew_all ev cfg [] changed w = (Inr changed, w)"
| "renew_all ev cfg ((crt, domains) # rest) changed w =
     (case renew_cert ev cfg crt domains w of
        (Inr c, w1) \<Rightarrow> renew_all ev cfg rest (changed \<or> c) w1
      | (Inl e, w1) \<Rightarrow>
          if caught e then renew_all ev cfg rest changed (log_error (err_msg e) w1)
          else (Inl e, w1))"

text \<open>Lines 280 to 282.\<close>

fun notify_all :: "env \<Rightarrow> (string \<times> string) list \<Rightarrow> world \<Rightarrow> world" where
  "notify_all ev [] w = w"
| "notify_all ev ((crt, containers) # rest) w =
     notify_all ev rest
       (notify_container ev (Some containers)
          (log_info (''['' @ crt @ ''] Notify containers'') w))"

text \<open>Lines 275 to 282.\<close>

definition notify_phase ::
  "env \<Rightarrow> config \<Rightarrow> (string \<times> string) list \<Rightarrow> bool \<Rightarrow> world \<Rightarrow> world" where
  "notify_phase ev cfg notifies changed w =
     (if changed
      then notify_all ev notifies
             (notify_container ev (container_notify cfg)
                (log_info ''[General] Notify containers'' w))
      else w)"

text \<open>Lines 249 to 282: an uncaught exception ends the process (\<open>Inl\<close>); otherwise
  the pass is at its wait.\<close>

definition renew_and_notify ::
  "env \<Rightarrow> config \<Rightarrow> (string \<times> string list) list \<Rightarrow> (string \<times> string) list \<Rightarrow> world \<Rightarrow>
   (py_error + bool) \<times> world" where
  "renew_and_notify ev cfg certs notifies w =
     (case renew_all ev cfg certs False w of
        (Inl e, w1) \<Rightarrow> (Inl e, w1)
      | (Inr changed, w1) \<Rightarrow> (Inr changed, notify_phase ev cfg notifies changed w1))"

definition force_marker :: path where
  "force_marker = tmp_dir @ ''/force_crt_update''"

text \<open>\<^verbatim>\<open>time.sleep(1)\<close>; the one outside change followed here is the operator
  creating the marker file meanwhile.\<close>

definition sleep :: "env \<Rightarrow> world \<Rightarrow> world" where
  "sleep ev w =
     (let w1 = emit Sleep w
      in if marker_touched ev w then w1\<lparr>files := (files w1)(force_marker \<mapsto> [])\<rparr> else w1)"

fun wait_loop :: "env \<Rightarrow> nat \<Rightarrow> world \<Rightarrow> world" where
  "wait_loop ev 0 w = w"
| "wait_loop ev (Suc counter) w =
     (if isfile w force_marker then w else wait_loop ev counter (sleep ev w))"

definition remove_file :: "path \<Rightarrow> world \<Rightarrow> world" where
  "remove_file p w = emit (RemoveFile p) (w\<lparr>files := (files w)(p := None)\<rparr>)"

text \<open>Lines 285 to 292.\<close>

definition wait_phase :: "env \<Rightarrow> world \<Rightarrow> world" where
  "wait_phase ev w =
     (let w1 = wait_loop ev 3600 w
      in if isfile w1 force_marker
         then remove_file force_marker (log_info ''Force update'' w1)
         else w1)"

text \<open>One turn of \<^verbatim>\<open>while True\<close>, lines 223 to 292.\<close>

definition main_pass :: "env \<Rightarrow> config \<Rightarrow> world \<Rightarrow> (py_error + unit) \<times> world" where
  "main_pass ev cfg w =
     (case update_dhparam ev cfg w of
        (Inl e, w1) \<Rightarrow> (Inl e, w1)
      | (Inr u, w1) \<Rightarrow>
          let (certs, notifies) = aggregate ev w1
          in (case renew_and_notify ev cfg certs notifies w1 of
                (Inl e, w2) \<Rightarrow> (Inl e, w2)
              | (Inr changed, w2) \<Rightarrow> (Inr (), wait_phase ev w2)))"

section \<open>Notions the properties are stated with\<close>

text \<open>The events a run added to the trace.\<close>

definition new_events :: "world \<Rightarrow> world \<Rightarrow> event list" where
  "new_events w w' = drop (length (trace w)) (trace w')"

definition req_text_argv :: "string \<Rightarrow> string list" where
  "req_text_argv name = [''openssl'', ''req'', ''-noout'', ''-text'', ''-in'', csr_file name]"

definition x509_startdate_argv :: "string \<Rightarrow> string list" where
  "x509_startdate_argv name =
     [''openssl'', ''x509'', ''-noout'', ''-startdate'', ''-in'', crt_file name]"

definition genrsa_argv :: "string list" where
  "genrsa_argv = [''openssl'', ''genrsa'', ''4096'']"

text \<open>The time since the start of a certificate. \<^verbatim>\<open>openssl\<close> prints the start in
  GMT and \<^verbatim>\<open>datetime.now()\<close> is the local clock, which is \<open>utcoffset\<close> ahead of
  GMT: the age is the local time, brought back to GMT, less the start.\<close>

definition age_since_start :: "int \<Rightarrow> int \<Rightarrow> int \<Rightarrow> int" where
  "age_since_start utcoffset local_now start = local_now - utcoffset - start"

text \<open>The SAN entries of the certificate file itself, as the toolkit's certificate
  inspection (\<^verbatim>\<open>openssl x509 -noout -text\<close>) lists them, read the way app.py reads
  the CSR dump. app.py never asks for them.\<close>

definition crt_san_domains :: "env \<Rightarrow> string \<Rightarrow> world \<Rightarrow> string list" where
  "crt_san_domains ev name w =
     san_domains (fst (snd (run_process ev w
        [''openssl'', ''x509'', ''-noout'', ''-text'', ''-in'', crt_file name])))"

text \<open>The containers a target list names, and the containers that were sent SIGHUP
  by a list of events.\<close>

definition targets :: "string option \<Rightarrow> string list" where
  "targets container_list =
     (case container_list of
        None \<Rightarrow> []
      | Some cl \<Rightarrow> if cl = [] then [] else str_split (strip_chars (\<lambda>c. c = CHR '','') cl) '','')"

fun sighup_target :: "event \<Rightarrow> string list" where
  "sighup_target (Exec argv) =
     (if length argv = 5 \<and> take 4 argv = [''docker'', ''kill'', ''-s'', ''SIGHUP'']
      then [argv ! 4] else [])"
| "sighup_target e = []"

definition signalled :: "event list \<Rightarrow> string list" where
  "signalled evs = concat (map sighup_target evs)"


text \<open>A file section that has both of its fields.\<close>

definition complete_section :: "(string \<Rightarrow> py_error + string) \<Rightarrow> bool" where
  "complete_section look =
     ((\<exists>d. look ''domains'' = Inr d) \<and> (\<exists>n. look ''notify'' = Inr n))"

text \<open>The world after the first step of \<open>create_crt\<close>, the copy of the old
  certificate.\<close>

definition archived_crt :: "env \<Rightarrow> string \<Rightarrow> world \<Rightarrow> world" where
  "archived_crt ev name w =
     snd (if exist_crt w name
          then copyfile (crt_file name) (bak_crt_file (strftime ev (now ev w)) name) w
          else (Inr (), w))"

text \<open>A later world: the trace has only grown. A world reached without touching the
  key of \<open>n\<close> and without generating a key.\<close>

definition grows :: "world \<Rightarrow> world \<Rightarrow> bool" where
  "grows w w' = (\<exists>evs. trace w' = trace w @ evs)"

definition quiet :: "string \<Rightarrow> world \<Rightarrow> world \<Rightarrow> bool" where
  "quiet n w w' =
     (files w' (key_file n) = files w (key_file n) \<and>
      (\<exists>evs. trace w' = trace w @ evs \<and> Exec genrsa_argv \<notin> set evs))"

section \<open>A test double for the collaborators\<close>

text \<open>
  In the test world a CSR or certificate file holds its SAN line, and the toolkit's
  text dump prints it under the extension's heading; every certificate starts at time
  0; the CA client answers by the CSR path it is given.
\<close>

definition san_dump :: "string \<Rightarrow> string" where
  "san_dump line =
     ''X509v3 Subject Alternative Name: '' @ [CHR 0x0A] @ ''    '' @ line @ [CHR 0x0A]"

definition test_run :: "world \<Rightarrow> string list \<Rightarrow> int \<times> string \<times> string" where
  "test_run w argv =
     (if take 4 argv = [''openssl'', ''req'', ''-noout'', ''-text''] \<or>
         take 4 argv = [''openssl'', ''x509'', ''-noout'', ''-text'']
      then (case files w (last argv) of
              None \<Rightarrow> (1, [], ''unable to load'')
            | Some c \<Rightarrow> (0, san_dump c, []))
      else if take 4 argv = [''openssl'', ''x509'', ''-noout'', ''-startdate'']
      then (0, ''notBefore=Jan  1 00:00:00 2024 GMT'' @ [CHR 0x0A], [])
      else if take 2 argv = [''openssl'', ''genrsa''] then (0, ''NEW KEY'', [])
      else if take 3 argv = [''openssl'', ''req'', ''-new''] then (0, ''NEW CSR'', [])
      else (0, [], []))"

definition test_look :: "string \<Rightarrow> py_error + string" where
  "test_look k =
     (if k = ''domains'' then Inr ''b.com,a.com,,a.com''
      else if k = ''notify'' then Inr ''web1,web2''
      else Inl (KeyError k))"

definition test_env :: "int \<Rightarrow> (path \<Rightarrow> py_error + string) \<Rightarrow> env" where
  "test_env t acme =
     \<lparr> run_process = test_run,
       now = (\<lambda>w. t),
       getmtime = (\<lambda>w p. 0),
       strptime = (\<lambda>s. if s = ''Jan  1 00:00:00 2024 GMT'' then Inr 0
                        else Inl ''time data does not match format''),
       strftime = (\<lambda>t. ''20240101_000000''),
       py_int = (\<lambda>s. if s = ''30'' then Inr 30 else if s = ''7'' then Inr 7
                      else Inl ''invalid literal for int()''),
       acme_get_crt = (\<lambda>w csr ca. acme csr),
       urlopen_read = (\<lambda>w url. Inr ''CHAIN''),
       dhparam_pem = (\<lambda>w. ''DH''),
       environ = [(''CERT_WWW'', ''old.com''), (''PATH'', ''/usr/bin'')],
       configparser_read = (\<lambda>w p. Inr [(''www'', test_look)]),
       marker_touched = (\<lambda>w. False) \<rparr>"

definition test_cfg :: "string \<Rightarrow> config" where
  "test_cfg chained =
     \<lparr> crt_max_age = Some ''30'', chained_crt = chained, acme_ca = ''https://ca'',
       acme_intermediate = ''https://chain'', container_notify = Some ''web'',
       dh_max_age = None \<rparr>"

definition test_world :: "(path \<times> string) list \<Rightarrow> world" where
  "test_world fs = \<lparr> files = map_of fs, trace = [] \<rparr>"

text \<open>A CA that signs everything, one that refuses the certificate \<open>b\<close>, and one whose
  client breaks on the answer for \<open>b\<close> with a \<^verbatim>\<open>KeyError\<close>.\<close>

definition acme_ok :: "path \<Rightarrow> py_error + string" where
  "acme_ok csr = Inr ''SIGNED''"

definition acme_refuses_b :: "path \<Rightarrow> py_error + string" where
  "acme_refuses_b csr =
     (if csr = csr_file ''b'' then Inl (ValueError ''Error signing certificate'')
      else Inr ''SIGNED'')"

definition acme_breaks_b :: "path \<Rightarrow> py_error + string" where
  "acme_breaks_b csr =
     (if csr = csr_file ''b'' then Inl (KeyError ''challenges'') else Inr ''SIGNED'')"

text \<open>A world with a fresh certificate and its CSR, and no key file.\<close>

definition keyless_world :: world where
  "keyless_world =
     test_world [(crt_file ''www'', ''DNS:a.com, DNS:b.com''),
                 (csr_file ''www'', ''DNS:a.com, DNS:b.com'')]"

text \<open>A world where the CSR already names a third domain and the certificate does not:
  what a pass leaves behind when the CSR was rebuilt and the signing failed.\<close>

definition stale_world :: world where
  "stale_world =
     test_world [(crt_file ''www'', ''DNS:a.com, DNS:b.com''),
                 (csr_file ''www'', ''DNS:a.com, DNS:b.com, DNS:c.com''),
                 (key_file ''www'', ''OLD KEY''),
                 (''/etc/ssl/openssl.cnf'', ''[req]'')]"

text \<open>A world where the certificate \<open>b\<close> has all of its files.\<close>

definition b_world :: world where
  "b_world =
     test_world [(crt_file ''b'', ''DNS:b.com''),
                 (csr_file ''b'', ''DNS:b.com''),
                 (key_file ''b'', ''OLD KEY''),
                 (''/etc/ssl/openssl.cnf'', ''[req]'')]"

text \<open>A world with no certificate material at all.\<close>

definition bare_world :: world where
  "bare_world = test_world [(''/etc/ssl/openssl.cnf'', ''[req]'')]"

text \<open>A world where the certificate \<open>a\<close> is in place and fresh and \<open>b\<close> has nothing,
  and the world after the loop has checked \<open>a\<close> there.\<close>

definition ab_world :: world where
  "ab_world =
     test_world [(crt_file ''a'', ''DNS:a.com''),
                 (csr_file ''a'', ''DNS:a.com''),
                 (key_file ''a'', ''KEY A''),
                 (''/etc/ssl/openssl.cnf'', ''[req]'')]"

definition ab_checked :: world where
  "ab_checked =
     log_info ''[a] Certificate valid -> Skipping''
       (emit (Exec (x509_startdate_argv ''a'')) (emit (Exec (req_text_argv ''a'')) ab_world))"

section \<open>Strings: facts\<close>

lemmas test_defs =
  test_env_def test_cfg_def test_world_def test_run_def san_dump_def acme_ok_def
  acme_refuses_b_def acme_breaks_b_def

lemmas path_defs =
  crt_file_def csr_file_def key_file_def bak_key_file_def bak_crt_file_def crt_dir_def
  crt_bak_dir_def tmp_dir_def force_marker_def

lemma startswith_Nil: "startswith s []"
  by (simp add: startswith_def)

text \<open>A part that starts with \<^verbatim>\<open>DNS:\<close> splits at the colon into at least two pieces,
  so the index 1 that \<open>san_domains\<close> reads is always there, as it is in app.py.\<close>

lemma split_from_not_Nil: "split_from sep cur s \<noteq> []"
  by (induction sep cur s rule: split_from.induct) auto

lemma str_split_dns: "str_split (''DNS:'' @ rest) '':'' = ''DNS'' # str_split rest '':''"
  by (simp add: str_split_def startswith_def)

lemma dns_part_has_domain:
  assumes "startswith part ''DNS:''"
  shows "2 \<le> length (str_split part '':'')"
proof -
  define rest where "rest = drop (length ''DNS:'') part"
  from assms have "take (length ''DNS:'') part = ''DNS:''"
    by (simp only: startswith_def)
  then have "''DNS:'' @ rest = part"
    unfolding rest_def by (metis append_take_drop_id)
  then have "str_split part '':'' = ''DNS'' # str_split rest '':''"
    using str_split_dns [of rest] by simp
  moreover have "str_split rest '':'' \<noteq> []"
    by (simp add: str_split_def split_from_not_Nil)
  ultimately show ?thesis
    by (cases "str_split rest '':''") simp_all
qed

section \<open>check_crt\<close>

text \<open>The four outcomes of the specification's evaluator are two here: \<open>True\<close> is
  Valid, \<open>False\<close> is any of Missing, Mismatched and Expiring.\<close>

lemma check_crt_missing:
  "\<not> isfile w (crt_file name) \<or> \<not> isfile w (csr_file name) \<Longrightarrow>
   check_crt ev cfg name domains w = (Inr False, w)"
  by (auto simp: check_crt_def)

lemma keyless_valid:
  "fst (check_crt (test_env 5 acme_ok) (test_cfg ''true'') ''www'' [''a.com'', ''b.com'']
          keyless_world) = Inr True"
  by code_simp

text \<open>
  C2, as the claim states it, fails: with the certificate and the CSR in place and no
  key file, \<open>check_crt\<close> answers Valid.
\<close>

theorem check_crt_valid_without_key:
  "\<not> exist_key keyless_world ''www'' \<and> exist_crt keyless_world ''www'' \<and>
   fst (check_crt (test_env 5 acme_ok) (test_cfg ''true'') ''www'' [''a.com'', ''b.com'']
          keyless_world) = Inr True"
  by code_simp

text \<open>
  C2, amended: \<open>check_crt\<close> answers \<open>False\<close> whenever the certificate file or the
  CSR file is absent, so it answers Valid only if both the certificate file and the CSR
  file are present. The key file is not looked at.
\<close>

theorem check_crt_valid_needs_crt_and_csr:
  "(\<not> isfile w (crt_file name) \<or> \<not> isfile w (csr_file name) \<longrightarrow>
      check_crt ev cfg name domains w = (Inr False, w)) \<and>
   (fst (check_crt ev cfg name domains w) = Inr True \<longrightarrow>
      isfile w (crt_file name) \<and> isfile w (csr_file name))"
proof (intro conjI impI)
  assume "\<not> isfile w (crt_file name) \<or> \<not> isfile w (csr_file name)"
  then show "check_crt ev cfg name domains w = (Inr False, w)"
    by (rule check_crt_missing)
next
  assume v: "fst (check_crt ev cfg name domains w) = Inr True"
  show "isfile w (crt_file name)"
  proof (rule ccontr)
    assume "\<not> isfile w (crt_file name)"
    then have "check_crt ev cfg name domains w = (Inr False, w)"
      by (simp add: check_crt_missing)
    with v show False by simp
  qed
next
  assume v: "fst (check_crt ev cfg name domains w) = Inr True"
  show "isfile w (csr_file name)"
  proof (rule ccontr)
    assume "\<not> isfile w (csr_file name)"
    then have "check_crt ev cfg name domains w = (Inr False, w)"
      by (simp add: check_crt_missing)
    with v show False by simp
  qed
qed

theorem check_crt_valid_needs_crt_and_csr_witness:
  "fst (check_crt (test_env 5 acme_ok) (test_cfg ''true'') ''www'' [''a.com'', ''b.com'']
          keyless_world) = Inr True \<and>
   isfile keyless_world (crt_file ''www'') \<and> isfile keyless_world (csr_file ''www'')"
  using check_crt_valid_needs_crt_and_csr
          [of keyless_world "''www''" "test_env 5 acme_ok" "test_cfg ''true''"
              "[''a.com'', ''b.com'']"]
        keyless_valid
  by blast

text \<open>
  C1, as the claim states it, fails: the certificate of \<open>www\<close> lists a.com and b.com,
  the configured list has c.com as well, and \<open>check_crt\<close> answers Valid, because the
  CSR beside the certificate lists all three.
\<close>

theorem check_crt_ignores_crt_san:
  "exist_key stale_world ''www'' \<and> exist_crt stale_world ''www'' \<and>
   isfile stale_world (csr_file ''www'') \<and>
   crt_san_domains (test_env 5 acme_ok) ''www'' stale_world = [''a.com'', ''b.com''] \<and>
   fst (check_crt (test_env 5 acme_ok) (test_cfg ''true'') ''www''
          [''a.com'', ''b.com'', ''c.com''] stale_world) = Inr True"
  by code_simp

text \<open>
  C1, amended: \<open>check_crt\<close> decides the mismatch from the SAN entries of the CSR file,
  not of the certificate: with both files present, when the sorted \<^verbatim>\<open>DNS:\<close> entries
  of the CSR dump differ from the configured list, the answer is \<open>False\<close>, and the
  certificate was not inspected.
\<close>

theorem check_crt_csr_mismatch:
  assumes "isfile w (crt_file name)" and "isfile w (csr_file name)"
    and "run_process ev w (req_text_argv name) = (0, out, err)"
    and "san_domains out \<noteq> domains"
  shows "check_crt ev cfg name domains w = (Inr False, emit (Exec (req_text_argv name)) w)"
  using assms by (simp add: check_crt_def popen_def req_text_argv_def)

theorem check_crt_csr_mismatch_witness:
  "isfile keyless_world (crt_file ''www'') \<and> isfile keyless_world (csr_file ''www'') \<and>
   run_process (test_env 5 acme_ok) keyless_world (req_text_argv ''www'') =
     (0, san_dump ''DNS:a.com, DNS:b.com'', []) \<and>
   san_domains (san_dump ''DNS:a.com, DNS:b.com'') = [''a.com'', ''b.com''] \<and>
   check_crt (test_env 5 acme_ok) (test_cfg ''true'') ''www''
      [''a.com'', ''b.com'', ''c.com''] keyless_world =
     (Inr False, emit (Exec (req_text_argv ''www'')) keyless_world)"
proof -
  have f1: "isfile keyless_world (crt_file ''www'')" by code_simp
  have f2: "isfile keyless_world (csr_file ''www'')" by code_simp
  have r: "run_process (test_env 5 acme_ok) keyless_world (req_text_argv ''www'') =
     (0, san_dump ''DNS:a.com, DNS:b.com'', [])" by code_simp
  have d: "san_domains (san_dump ''DNS:a.com, DNS:b.com'') = [''a.com'', ''b.com'']"
    by code_simp
  then have n: "san_domains (san_dump ''DNS:a.com, DNS:b.com'') \<noteq> [''a.com'', ''b.com'', ''c.com'']"
    by simp
  from check_crt_csr_mismatch [OF f1 f2 r n] f1 f2 r d show ?thesis by simp
qed

text \<open>Whole days: the floor of the age is below \<open>n\<close> exactly when the age is below
  \<open>n\<close> days.\<close>

lemma int_div_less: "0 < D \<Longrightarrow> ((x::int) div D < n) = (x < n * D)"
proof
  assume D: "0 < D" and q: "x div D < n"
  have e: "x = D * (x div D) + x mod D" by simp
  have r: "x mod D < D" using D by simp
  have "x div D + 1 \<le> n" using q by simp
  then have "D * (x div D + 1) \<le> D * n" using D by (simp only: mult_le_cancel_left_pos)
  then have "D * (x div D) + D \<le> n * D" by (simp add: algebra_simps)
  with e r show "x < n * D" by linarith
next
  assume D: "0 < D" and l: "x < n * D"
  have e: "x = D * (x div D) + x mod D" by simp
  have r: "0 \<le> x mod D" using D by simp
  show "x div D < n"
  proof (rule ccontr)
    assume "\<not> x div D < n"
    then have "n \<le> x div D" by simp
    then have "D * n \<le> D * (x div D)" using D by (simp only: mult_le_cancel_left_pos)
    then have "n * D \<le> D * (x div D)" by (simp add: mult.commute)
    with e r l show False by linarith
  qed
qed

lemma days_less_iff: "(days delta < n) = (delta < n * 86400000000)"
  unfolding days_def by (rule int_div_less) simp

text \<open>What \<open>check_crt\<close> returns when both files are there, the CSR domains match and
  every step succeeds: whether the days between the local clock and the parsed start are
  fewer than the maximal age.\<close>

lemma check_crt_run:
  assumes "isfile w (crt_file name)" and "isfile w (csr_file name)"
    and "run_process ev w (req_text_argv name) = (0, out, err)"
    and "san_domains out = domains"
    and "w1 = emit (Exec (req_text_argv name)) w"
    and "run_process ev w1 (x509_startdate_argv name) = (0, out2, err2)"
    and "str_split (str_strip out2) ''='' = a # d # rest"
    and "strptime ev d = Inr start_time"
    and "int_crt_max_age ev cfg = Inr n"
    and "w2 = emit (Exec (x509_startdate_argv name)) w1"
  shows "check_crt ev cfg name domains w = (Inr (days (now ev w2 - start_time) < n), w2)"
  using assms
  by (simp add: check_crt_def popen_def req_text_argv_def x509_startdate_argv_def)

lemma keyless_req:
  "run_process (test_env t acme_ok) keyless_world (req_text_argv ''www'') =
     (0, san_dump ''DNS:a.com, DNS:b.com'', [])"
  by (simp add: test_defs keyless_world_def req_text_argv_def path_defs)

lemma keyless_startdate:
  "run_process (test_env t acme_ok) w (x509_startdate_argv ''www'') =
     (0, ''notBefore=Jan  1 00:00:00 2024 GMT'' @ [CHR 0x0A], [])"
  by (simp add: test_defs x509_startdate_argv_def)

lemma startdate_split:
  "str_split (str_strip (''notBefore=Jan  1 00:00:00 2024 GMT'' @ [CHR 0x0A])) ''='' =
     ''notBefore'' # ''Jan  1 00:00:00 2024 GMT'' # []"
  by code_simp

text \<open>
  C8, where the code departs from the claim: \<open>check_crt\<close> subtracts the start, which is
  a GMT time read as a naive one, from the naive local clock. For a certificate whose
  files are present and whose CSR domains match, the answer is Valid exactly when the
  whole days of the age plus the offset of the local zone are fewer than \<open>n\<close>, that is
  when the age is below \<open>n\<close> days less the offset. Only at offset 0 is that the claim.
  The witness is the claim's own boundary: one hour east of GMT a certificate of 29 days
  23 hours is not Valid with 30 days allowed (and one of 6 days 23 hours is not with 7);
  five hours west, one of 30 days 1 hour is Valid.
\<close>

theorem check_crt_age_off_by_utcoffset:
  assumes "isfile w (crt_file name)" and "isfile w (csr_file name)"
    and "run_process ev w (req_text_argv name) = (0, out, err)"
    and "san_domains out = domains"
    and "w1 = emit (Exec (req_text_argv name)) w"
    and "run_process ev w1 (x509_startdate_argv name) = (0, out2, err2)"
    and "str_split (str_strip out2) ''='' = a # d # rest"
    and "strptime ev d = Inr start_time"
    and "int_crt_max_age ev cfg = Inr n"
    and "w2 = emit (Exec (x509_startdate_argv name)) w1"
  shows "check_crt ev cfg name domains w =
           (Inr (days (age_since_start off (now ev w2) start_time + off) < n), w2) \<and>
         (days (age_since_start off (now ev w2) start_time + off) < n) =
           (age_since_start off (now ev w2) start_time < n * 86400000000 - off)"
proof -
  have "age_since_start off (now ev w2) start_time + off = now ev w2 - start_time"
    by (simp add: age_since_start_def)
  moreover have "(days (now ev w2 - start_time) < n) =
                 (age_since_start off (now ev w2) start_time < n * 86400000000 - off)"
    by (auto simp: days_less_iff age_since_start_def)
  ultimately show ?thesis
    using check_crt_run [OF assms] by simp
qed

theorem check_crt_age_off_by_utcoffset_witness:
  "days (age_since_start 3600000000 (30 * 24 * 3600000000) 0) = 29 \<and>
   fst (check_crt (test_env (30 * 24 * 3600000000) acme_ok) (test_cfg ''true'') ''www''
          [''a.com'', ''b.com''] keyless_world) = Inr False \<and>
   days (age_since_start (- 5 * 3600000000) ((29 * 24 + 20) * 3600000000) 0) = 30 \<and>
   fst (check_crt (test_env ((29 * 24 + 20) * 3600000000) acme_ok)
          ((test_cfg ''true'')\<lparr>crt_max_age := None\<rparr>) ''www''
          [''a.com'', ''b.com''] keyless_world) = Inr True \<and>
   days (age_since_start 3600000000 (7 * 24 * 3600000000) 0) = 6 \<and>
   fst (check_crt (test_env (7 * 24 * 3600000000) acme_ok)
          ((test_cfg ''true'')\<lparr>crt_max_age := Some ''7''\<rparr>) ''www''
          [''a.com'', ''b.com''] keyless_world) = Inr False"
proof -
  have f1: "isfile keyless_world (crt_file ''www'')" by code_simp
  have f2: "isfile keyless_world (csr_file ''www'')" by code_simp
  have d: "san_domains (san_dump ''DNS:a.com, DNS:b.com'') = [''a.com'', ''b.com'']"
    by code_simp
  have p: "strptime (test_env t acme_ok) ''Jan  1 00:00:00 2024 GMT'' = Inr 0" for t
    by (simp add: test_defs)
  have m30: "int_crt_max_age (test_env t acme_ok) (test_cfg ''true'') = Inr 30" for t
    by (simp add: test_defs int_crt_max_age_def)
  have m0: "int_crt_max_age (test_env t acme_ok) ((test_cfg ''true'')\<lparr>crt_max_age := None\<rparr>) =
              Inr 30" for t
    by (simp add: test_defs int_crt_max_age_def)
  have m7: "int_crt_max_age (test_env t acme_ok)
              ((test_cfg ''true'')\<lparr>crt_max_age := Some ''7''\<rparr>) = Inr 7" for t
    by (simp add: test_defs int_crt_max_age_def)
  have c: "now (test_env t acme_ok) w = t" for t w
    by (simp add: test_defs)
  let ?t1 = "30 * 24 * 3600000000 :: int"
  let ?t2 = "(29 * 24 + 20) * 3600000000 :: int"
  let ?t3 = "7 * 24 * 3600000000 :: int"
  note east = check_crt_age_off_by_utcoffset
      [OF f1 f2 keyless_req [of ?t1] d refl keyless_startdate [of ?t1] startdate_split
          p [of ?t1] m30 [of ?t1] refl, where off = 3600000000]
  note west = check_crt_age_off_by_utcoffset
      [OF f1 f2 keyless_req [of ?t2] d refl keyless_startdate [of ?t2] startdate_split
          p [of ?t2] m0 [of ?t2] refl, where off = "- 5 * 3600000000"]
  note week = check_crt_age_off_by_utcoffset
      [OF f1 f2 keyless_req [of ?t3] d refl keyless_startdate [of ?t3] startdate_split
          p [of ?t3] m7 [of ?t3] refl, where off = 3600000000]
  from east west week show ?thesis
    by (simp add: c age_since_start_def days_def)
qed

section \<open>create_crt\<close>

lemma files_emit [simp]: "files (emit e w) = files w"
  by (simp add: emit_def)

lemma trace_emit [simp]: "trace (emit e w) = trace w @ [e]"
  by (simp add: emit_def)

lemma new_events_append [simp]: "trace w' = trace w @ evs \<Longrightarrow> new_events w w' = evs"
  by (simp add: new_events_def)

lemma bak_crt_neq_crt [simp]: "bak_crt_file stamp n \<noteq> crt_file m"
  by (simp add: path_defs)

text \<open>
  C10: in a run of \<open>create_crt\<close> that succeeds, the file written is the signed
  certificate followed by the downloaded intermediate exactly when \<open>chained_crt\<close> is
  the string \<^verbatim>\<open>true\<close>, and the intermediate is downloaded only then; for any other
  value, \<^verbatim>\<open>True\<close>, \<^verbatim>\<open>TRUE\<close> and \<^verbatim>\<open>1\<close> among them, the file is the signed
  certificate alone. The value is a field of the configuration fixed before the run.
\<close>

theorem create_crt_chained_iff:
  assumes "create_crt ev cfg name w = (Inr (), w')"
    and "w1 = archived_crt ev name w"
    and "w2 = emit (AcmeGetCrt (csr_file name) (acme_ca cfg)) w1"
  shows "\<exists>signed. acme_get_crt ev w1 (csr_file name) (acme_ca cfg) = Inr signed \<and>
           (chained_crt cfg = ''true'' \<longrightarrow>
              (\<exists>chain. urlopen_read ev w2 (acme_intermediate cfg) = Inr chain \<and>
                       files w' (crt_file name) = Some (signed @ chain)) \<and>
              UrlOpen (acme_intermediate cfg) \<in> set (new_events w w')) \<and>
           (chained_crt cfg \<noteq> ''true'' \<longrightarrow>
              files w' (crt_file name) = Some signed \<and>
              (\<forall>url. UrlOpen url \<notin> set (new_events w w'))) \<and>
           (chained_crt cfg \<in> {''True'', ''TRUE'', ''1''} \<longrightarrow>
              files w' (crt_file name) = Some signed)"
  using assms
  by (auto simp: create_crt_def archived_crt_def get_crt_def urlopen_def copyfile_def
        write_file_def exist_crt_def isfile_def
      split: if_splits sum.splits prod.splits option.splits)

text \<open>
  C4, amended: when a certificate file exists, \<open>create_crt\<close> copies it to the backup
  directory first and calls the CA client second; the copy is there whatever the CA
  answers, and a run that fails leaves the certificate file as it was.
\<close>

theorem create_crt_archives_before_signing:
  assumes "files w (crt_file name) = Some old"
    and "create_crt ev cfg name w = (r, w')"
    and "bak = bak_crt_file (strftime ev (now ev w)) name"
  shows "take 2 (new_events w w') =
           [CopyFile (crt_file name) bak, AcmeGetCrt (csr_file name) (acme_ca cfg)] \<and>
         files w' bak = Some old \<and>
         ((\<exists>e. r = Inl e) \<longrightarrow> files w' (crt_file name) = Some old)"
  using assms
  by (auto simp: create_crt_def get_crt_def urlopen_def copyfile_def
        write_file_def exist_crt_def isfile_def
      split: if_splits sum.splits prod.splits option.splits)

text \<open>
  C4, as the claim states it, fails: the CA refuses the certificate \<open>b\<close>, and the run
  has copied the old certificate to the backup directory all the same.
\<close>

theorem create_crt_archives_on_failed_signing:
  "exist_crt b_world ''b'' \<and>
   fst (create_crt (test_env 5 acme_refuses_b) (test_cfg ''true'') ''b'' b_world) =
     Inl (ValueError ''Error signing certificate'') \<and>
   CopyFile (crt_file ''b'') (bak_crt_file ''20240101_000000'' ''b'') \<in>
     set (new_events b_world
            (snd (create_crt (test_env 5 acme_refuses_b) (test_cfg ''true'') ''b'' b_world))) \<and>
   files (snd (create_crt (test_env 5 acme_refuses_b) (test_cfg ''true'') ''b'' b_world))
     (bak_crt_file ''20240101_000000'' ''b'') = Some ''DNS:b.com''"
  by code_simp


lemma pair_fst_snd: "fst p = a \<Longrightarrow> p = (a, snd p)"
  by (cases p) simp

theorem create_crt_chained_iff_witness:
  "files (snd (create_crt (test_env 5 acme_ok) (test_cfg ''true'') ''www'' keyless_world))
     (crt_file ''www'') = Some ''SIGNEDCHAIN'' \<and>
   files (snd (create_crt (test_env 5 acme_ok) (test_cfg ''True'') ''www'' keyless_world))
     (crt_file ''www'') = Some ''SIGNED''"
proof -
  have a: "acme_get_crt (test_env 5 acme_ok) w csr ca = Inr ''SIGNED''" for w csr ca
    by (simp add: test_defs)
  have u: "urlopen_read (test_env 5 acme_ok) w url = Inr ''CHAIN''" for w url
    by (simp add: test_defs)
  have c: "chained_crt (test_cfg x) = x" for x
    by (simp add: test_defs)
  have "fst (create_crt (test_env 5 acme_ok) (test_cfg ''true'') ''www'' keyless_world) = Inr ()"
    by code_simp
  then have t: "create_crt (test_env 5 acme_ok) (test_cfg ''true'') ''www'' keyless_world =
      (Inr (), snd (create_crt (test_env 5 acme_ok) (test_cfg ''true'') ''www'' keyless_world))"
    by (rule pair_fst_snd)
  have "fst (create_crt (test_env 5 acme_ok) (test_cfg ''True'') ''www'' keyless_world) = Inr ()"
    by code_simp
  then have f: "create_crt (test_env 5 acme_ok) (test_cfg ''True'') ''www'' keyless_world =
      (Inr (), snd (create_crt (test_env 5 acme_ok) (test_cfg ''True'') ''www'' keyless_world))"
    by (rule pair_fst_snd)
  from create_crt_chained_iff [OF t refl refl] create_crt_chained_iff [OF f refl refl]
  show ?thesis by (auto simp: a u c)
qed

theorem create_crt_archives_before_signing_witness:
  "files b_world (crt_file ''b'') = Some ''DNS:b.com'' \<and>
   fst (create_crt (test_env 5 acme_refuses_b) (test_cfg ''true'') ''b'' b_world) =
     Inl (ValueError ''Error signing certificate'') \<and>
   take 2 (new_events b_world
             (snd (create_crt (test_env 5 acme_refuses_b) (test_cfg ''true'') ''b'' b_world))) =
     [CopyFile (crt_file ''b'') (bak_crt_file ''20240101_000000'' ''b''),
      AcmeGetCrt (csr_file ''b'') ''https://ca''] \<and>
   files (snd (create_crt (test_env 5 acme_refuses_b) (test_cfg ''true'') ''b'' b_world))
     (crt_file ''b'') = Some ''DNS:b.com''"
proof -
  have f: "files b_world (crt_file ''b'') = Some ''DNS:b.com''"
    by (simp add: b_world_def test_defs)
  have r: "fst (create_crt (test_env 5 acme_refuses_b) (test_cfg ''true'') ''b'' b_world) =
     Inl (ValueError ''Error signing certificate'')"
    by code_simp
  have s: "strftime (test_env 5 acme_refuses_b) t = ''20240101_000000''" for t
    by (simp add: test_defs)
  have c: "acme_ca (test_cfg ''true'') = ''https://ca''"
    by (simp add: test_defs)
  from create_crt_archives_before_signing [OF f pair_fst_snd [OF r] refl] f r
  show ?thesis by (simp add: s c)
qed

section \<open>The pipeline of one certificate\<close>

lemma grows_refl [simp]: "grows w w"
  by (simp add: grows_def)

lemma grows_trans: "grows w w1 \<Longrightarrow> grows w1 w2 \<Longrightarrow> grows w w2"
  by (auto simp: grows_def)

lemma grows_emit [simp]: "grows w (emit e w)"
  by (simp add: grows_def)

lemma grows_after_emit: "grows (emit e w) w' \<Longrightarrow> grows w w'"
  by (auto simp: grows_def)

lemma quiet_refl [simp]: "quiet n w w"
  by (simp add: quiet_def)

lemma quiet_trans: "quiet n w w1 \<Longrightarrow> quiet n w1 w2 \<Longrightarrow> quiet n w w2"
  by (auto simp: quiet_def)

lemma quiet_emit: "e \<noteq> Exec genrsa_argv \<Longrightarrow> quiet n w (emit e w)"
  by (simp add: quiet_def)

lemma quiet_new_events:
  "quiet n w w' \<Longrightarrow>
   files w' (key_file n) = files w (key_file n) \<and> Exec genrsa_argv \<notin> set (new_events w w')"
  by (auto simp: quiet_def)

lemma key_neq_others [simp]:
  "key_file n \<noteq> csr_file m" "key_file n \<noteq> crt_file m"
  "key_file n \<noteq> bak_crt_file stamp m" "key_file n \<noteq> bak_key_file stamp m"
  "key_file n \<noteq> tmp_dir @ ''openssl.cnf''" "key_file n \<noteq> force_marker"
  "key_file n \<noteq> crt_dir @ ''/dhparam.pem''"
  by (simp_all add: path_defs)

lemma check_crt_files [simp]: "files (snd (check_crt ev cfg n d w)) = files w"
  by (simp add: check_crt_def popen_def Let_def split: prod.splits list.splits sum.splits)

lemma check_crt_quiet: "quiet n w (snd (check_crt ev cfg m d w))"
  by (simp add: check_crt_def popen_def Let_def quiet_def genrsa_argv_def
      split: prod.splits list.splits sum.splits)

lemma create_csr_quiet: "quiet n w (snd (create_csr ev m d w))"
  by (simp add: create_csr_def popen_def Let_def quiet_def genrsa_argv_def copyfile_def
        append_file_def write_file_def
      split: prod.splits option.splits)

lemma create_crt_quiet: "quiet n w (snd (create_crt ev cfg m w))"
  by (simp add: create_crt_def get_crt_def urlopen_def quiet_def genrsa_argv_def copyfile_def
        write_file_def
      split: prod.splits option.splits sum.splits)

lemma log_info_quiet: "quiet n w (log_info m w)"
  by (simp add: log_info_def quiet_emit)

lemma quiet_grows: "quiet n w w' \<Longrightarrow> grows w w'"
  by (auto simp: quiet_def grows_def)

lemma create_key_genrsa:
  "\<not> exist_key w n \<Longrightarrow>
   \<exists>evs. trace (snd (create_key ev n w)) = trace w @ Exec genrsa_argv # evs"
  by (simp add: create_key_def popen_def write_file_def genrsa_argv_def split: prod.splits)


lemma create_key_grows: "grows w (snd (create_key ev n w))"
  by (simp add: create_key_def popen_def write_file_def copyfile_def grows_def
      split: prod.splits option.splits)

lemma renew_cert_quiet:
  assumes k: "exist_key w crt"
  shows "quiet crt w (snd (renew_cert ev cfg crt domains w))"
proof -
  obtain r1 w1 where c: "check_crt ev cfg crt domains w = (r1, w1)"
    by (cases "check_crt ev cfg crt domains w")
  have q1: "quiet crt w w1"
    using check_crt_quiet [of crt w ev cfg crt domains] c by simp
  have k1: "exist_key w1 crt"
    using check_crt_files [of ev cfg crt domains w] c k by (simp add: exist_key_def isfile_def)
  define w2 where "w2 = log_info (''['' @ crt @ ''] Generate CSR'') w1"
  have q2: "quiet crt w w2"
    unfolding w2_def using q1 log_info_quiet by (rule quiet_trans)
  obtain r3 w3 where s: "create_csr ev crt domains w2 = (r3, w3)"
    by (cases "create_csr ev crt domains w2")
  have q3: "quiet crt w w3"
    using quiet_trans [OF q2 create_csr_quiet [of crt w2 ev crt domains]] s by simp
  obtain r4 w4 where t: "create_crt ev cfg crt w3 = (r4, w4)"
    by (cases "create_crt ev cfg crt w3")
  have q4: "quiet crt w w4"
    using quiet_trans [OF q3 create_crt_quiet [of crt w3 ev cfg crt]] t by simp
  have q0: "quiet crt w (log_info (''['' @ crt @ ''] Certificate valid -> Skipping'') w1)"
    using q1 log_info_quiet by (rule quiet_trans)
  show ?thesis
    using c s t k1 q0 q1 q3 q4
    by (auto simp: renew_cert_def w2_def split: sum.splits bool.splits)
qed

lemma renew_cert_genrsa:
  assumes k: "\<not> exist_key w crt"
    and c: "check_crt ev cfg crt domains w = (Inr False, w1)"
  shows "Exec genrsa_argv \<in> set (new_events w (snd (renew_cert ev cfg crt domains w)))"
proof -
  have g1: "grows w w1"
    using check_crt_quiet [of crt w ev cfg crt domains] c by (simp add: quiet_grows)
  have k1: "\<not> exist_key w1 crt"
    using check_crt_files [of ev cfg crt domains w] c k by (simp add: exist_key_def isfile_def)
  define w1' where "w1' = log_info (''['' @ crt @ ''] Generate RSA private key'') w1"
  have k1': "\<not> exist_key w1' crt"
    using k1 by (simp add: w1'_def log_info_def exist_key_def isfile_def)
  have g1': "grows w w1'"
    using g1 by (auto simp: w1'_def log_info_def grows_def)
  obtain r2 w2 where ck: "create_key ev crt w1' = (r2, w2)"
    by (cases "create_key ev crt w1'")
  from create_key_genrsa [OF k1', of ev] ck g1'
  obtain evs where e2: "trace w2 = trace w @ evs" and m2: "Exec genrsa_argv \<in> set evs"
    by (auto simp: grows_def)
  have later: "Exec genrsa_argv \<in> set (new_events w w')" if "grows w2 w'" for w'
    using that e2 m2 by (auto simp: grows_def new_events_def)
  define w2' where "w2' = log_info (''['' @ crt @ ''] Generate CSR'') w2"
  have g2': "grows w2 w2'"
    by (simp add: w2'_def log_info_def)
  obtain r3 w3 where s: "create_csr ev crt domains w2' = (r3, w3)"
    by (cases "create_csr ev crt domains w2'")
  have g3: "grows w2 w3"
    using grows_trans [OF g2' quiet_grows [OF create_csr_quiet [of crt w2' ev crt domains]]] s
    by simp
  obtain r4 w4 where t: "create_crt ev cfg crt w3 = (r4, w4)"
    by (cases "create_crt ev cfg crt w3")
  have g4: "grows w2 w4"
    using grows_trans [OF g3 quiet_grows [OF create_crt_quiet [of crt w3 ev cfg crt]]] t
    by simp
  show ?thesis
    using c ck s t k1 later [OF grows_refl] later [OF g3] later [OF g4]
    by (auto simp: renew_cert_def w1'_def w2'_def split: sum.splits)
qed

text \<open>
  C5, amended: when the pipeline runs for a certificate, a private key is generated only
  if no key file exists. With a key file in place the run leaves it as it is and never
  calls \<^verbatim>\<open>openssl genrsa\<close>; without one, and with \<open>check_crt\<close> not Valid, it does.
\<close>

theorem renew_cert_key_only_when_missing:
  "(exist_key w crt \<longrightarrow>
      files (snd (renew_cert ev cfg crt domains w)) (key_file crt) = files w (key_file crt) \<and>
      Exec genrsa_argv \<notin> set (new_events w (snd (renew_cert ev cfg crt domains w)))) \<and>
   (\<not> exist_key w crt \<and> fst (check_crt ev cfg crt domains w) = Inr False \<longrightarrow>
      Exec genrsa_argv \<in> set (new_events w (snd (renew_cert ev cfg crt domains w))))"
proof -
  have a: "files (snd (renew_cert ev cfg crt domains w)) (key_file crt) =
             files w (key_file crt) \<and>
           Exec genrsa_argv \<notin> set (new_events w (snd (renew_cert ev cfg crt domains w)))"
    if "exist_key w crt"
    using renew_cert_quiet [OF that] by (rule quiet_new_events)
  have b: "Exec genrsa_argv \<in> set (new_events w (snd (renew_cert ev cfg crt domains w)))"
    if "\<not> exist_key w crt" and "fst (check_crt ev cfg crt domains w) = Inr False"
    using that(1) pair_fst_snd [OF that(2)] by (rule renew_cert_genrsa)
  from a b show ?thesis by blast
qed

text \<open>
  C5, as the claim states it, fails: the certificate \<open>www\<close> is reissued for a changed
  domain list, and the key on disk is the old one; no key was generated.
\<close>

theorem renew_cert_reuses_old_key:
  "exist_key stale_world ''www'' \<and>
   fst (check_crt (test_env 5 acme_ok) (test_cfg ''true'') ''www'' [''a.com''] stale_world) =
     Inr False \<and>
   fst (renew_cert (test_env 5 acme_ok) (test_cfg ''true'') ''www'' [''a.com''] stale_world) =
     Inr True \<and>
   files (snd (renew_cert (test_env 5 acme_ok) (test_cfg ''true'') ''www'' [''a.com'']
                 stale_world)) (key_file ''www'') = Some ''OLD KEY'' \<and>
   Exec genrsa_argv \<notin>
     set (new_events stale_world
            (snd (renew_cert (test_env 5 acme_ok) (test_cfg ''true'') ''www'' [''a.com'']
                    stale_world)))"
  by code_simp

theorem renew_cert_key_only_when_missing_witness:
  "exist_key stale_world ''www'' \<and>
   files (snd (renew_cert (test_env 5 acme_ok) (test_cfg ''true'') ''www'' [''a.com'']
                 stale_world)) (key_file ''www'') = Some ''OLD KEY'' \<and>
   \<not> exist_key keyless_world ''www'' \<and>
   fst (check_crt (test_env 5 acme_ok) (test_cfg ''true'') ''www'' [''a.com''] keyless_world) =
     Inr False \<and>
   Exec genrsa_argv \<in>
     set (new_events keyless_world
            (snd (renew_cert (test_env 5 acme_ok) (test_cfg ''true'') ''www'' [''a.com'']
                    keyless_world)))"
proof -
  have k: "exist_key stale_world ''www''" by code_simp
  have o: "files stale_world (key_file ''www'') = Some ''OLD KEY''"
    by (simp add: stale_world_def test_defs path_defs)
  have n: "\<not> exist_key keyless_world ''www''" by code_simp
  have c: "fst (check_crt (test_env 5 acme_ok) (test_cfg ''true'') ''www'' [''a.com'']
                  keyless_world) = Inr False"
    by code_simp
  from renew_cert_key_only_when_missing
         [of stale_world "''www''" "test_env 5 acme_ok" "test_cfg ''true''" "[''a.com'']"]
       renew_cert_key_only_when_missing
         [of keyless_world "''www''" "test_env 5 acme_ok" "test_cfg ''true''" "[''a.com'']"]
       k o n c
  show ?thesis by simp
qed

section \<open>Private keys are kept\<close>

lemma key_file_inj [simp]: "(key_file m = key_file n) = (m = n)"
  by (simp add: path_defs)

lemma create_key_other:
  "m \<noteq> n \<Longrightarrow> files (snd (create_key ev m w)) (key_file n) = files w (key_file n)"
  by (simp add: create_key_def popen_def write_file_def copyfile_def
      split: prod.splits option.splits)

lemma renew_cert_other:
  assumes "m \<noteq> n"
  shows "files (snd (renew_cert ev cfg m d w)) (key_file n) = files w (key_file n)"
proof -
  obtain r1 w1 where c: "check_crt ev cfg m d w = (r1, w1)"
    by (cases "check_crt ev cfg m d w")
  have f1: "files w1 = files w"
    using check_crt_files [of ev cfg m d w] c by simp
  define w1' where "w1' = log_info (''['' @ m @ ''] Generate RSA private key'') w1"
  obtain r2 w2 where ck: "create_key ev m w1' = (r2, w2)"
    by (cases "create_key ev m w1'")
  have f2: "files w2 (key_file n) = files w (key_file n)"
    using create_key_other [OF assms, of ev w1'] ck f1 by (simp add: w1'_def log_info_def)
  have rest: "files (snd (case create_csr ev m d (log_info (''['' @ m @ ''] Generate CSR'') v) of
                 (Inl e, w3) \<Rightarrow> (Inl e, w3)
               | (Inr u, w3) \<Rightarrow>
                   (case create_crt ev cfg m w3 of
                      (Inl e, w4) \<Rightarrow> (Inl e, w4)
                    | (Inr u, w4) \<Rightarrow> (Inr True, w4)))) (key_file n) = files v (key_file n)"
    for v
  proof -
    define v' where "v' = log_info (''['' @ m @ ''] Generate CSR'') v"
    obtain r3 w3 where s: "create_csr ev m d v' = (r3, w3)"
      by (cases "create_csr ev m d v'")
    have f3: "files w3 (key_file n) = files v (key_file n)"
      using create_csr_quiet [of n v' ev m d] s by (simp add: quiet_def v'_def log_info_def)
    obtain r4 w4 where t: "create_crt ev cfg m w3 = (r4, w4)"
      by (cases "create_crt ev cfg m w3")
    have f4: "files w4 (key_file n) = files v (key_file n)"
      using create_crt_quiet [of n w3 ev cfg m] t f3 by (simp add: quiet_def)
    show ?thesis
      using s t f3 f4 by (auto simp: v'_def split: sum.splits)
  qed
  show ?thesis
    using c ck f1 f2 rest [of w1] rest [of w2]
    by (auto simp: renew_cert_def w1'_def log_info_def split: sum.splits bool.splits)
qed

lemma renew_cert_keeps_key:
  "exist_key w n \<Longrightarrow>
   files (snd (renew_cert ev cfg m d w)) (key_file n) = files w (key_file n)"
  using renew_cert_other [of m n ev cfg d w] renew_cert_quiet [of w n ev cfg d]
  by (cases "m = n") (simp_all add: quiet_def)

lemma renew_all_keeps_key:
  "exist_key w n \<Longrightarrow>
   files (snd (renew_all ev cfg certs changed w)) (key_file n) = files w (key_file n)"
proof (induction certs arbitrary: changed w)
  case Nil
  then show ?case by simp
next
  case (Cons c certs)
  obtain crt d where cd: "c = (crt, d)" by (cases c)
  obtain r1 w1 where r: "renew_cert ev cfg crt d w = (r1, w1)"
    by (cases "renew_cert ev cfg crt d w")
  have f1: "files w1 (key_file n) = files w (key_file n)"
    using renew_cert_keeps_key [OF Cons.prems, of ev cfg crt d] r by simp
  then have k1: "exist_key w1 n"
    using Cons.prems by (simp add: exist_key_def isfile_def)
  have k1': "exist_key (log_error m w1) n" for m
    using k1 by (simp add: exist_key_def isfile_def log_error_def)
  show ?case
    using cd r f1 Cons.IH [OF k1] Cons.IH [OF k1']
    by (auto simp: log_error_def split: sum.splits)
qed

lemma notify_each_files [simp]: "files (notify_each ev cs w) = files w"
  by (induction cs arbitrary: w)
     (simp_all add: popen_def log_info_def log_error_def Let_def split: prod.splits)

lemma notify_container_files [simp]: "files (notify_container ev cl w) = files w"
  by (simp add: notify_container_def split: option.splits)

lemma notify_all_files [simp]: "files (notify_all ev ns w) = files w"
  by (induction ns arbitrary: w) (auto simp: log_info_def)

lemma notify_phase_files [simp]: "files (notify_phase ev cfg ns changed w) = files w"
  by (simp add: notify_phase_def log_info_def)

lemma update_dhparam_keeps_key:
  "files (snd (update_dhparam ev cfg w)) (key_file n) = files w (key_file n)"
  by (simp add: update_dhparam_def popen_def log_info_def put_file_def Let_def
      split: option.splits sum.splits bool.splits prod.splits)

lemma wait_loop_keeps_key:
  "files (wait_loop ev k w) (key_file n) = files w (key_file n)"
  by (induction k arbitrary: w) (simp_all add: sleep_def Let_def)

lemma wait_phase_keeps_key:
  "files (wait_phase ev w) (key_file n) = files w (key_file n)"
  by (simp add: wait_phase_def remove_file_def log_info_def Let_def wait_loop_keeps_key)

lemma main_pass_keeps_key:
  assumes k: "exist_key w n"
  shows "files (snd (main_pass ev cfg w)) (key_file n) = files w (key_file n)"
proof -
  obtain r1 w1 where d: "update_dhparam ev cfg w = (r1, w1)"
    by (cases "update_dhparam ev cfg w")
  have f1: "files w1 (key_file n) = files w (key_file n)"
    using update_dhparam_keeps_key [of ev cfg w n] d by simp
  then have k1: "exist_key w1 n"
    using k by (simp add: exist_key_def isfile_def)
  obtain certs notifies where a: "aggregate ev w1 = (certs, notifies)"
    by (cases "aggregate ev w1")
  obtain r2 w2 where r: "renew_all ev cfg certs False w1 = (r2, w2)"
    by (cases "renew_all ev cfg certs False w1")
  have f2: "files w2 (key_file n) = files w (key_file n)"
    using renew_all_keeps_key [OF k1, of ev cfg certs False] r f1 by simp
  show ?thesis
    using d a r f1 f2
    by (auto simp: main_pass_def renew_and_notify_def wait_phase_keeps_key
        split: sum.splits)
qed

lemma bak_key_neq_key [simp]: "bak_key_file stamp m \<noteq> key_file n"
  by (simp add: path_defs)

lemma create_key_backup:
  assumes "files w (key_file n) = Some old"
    and "bak = bak_key_file (strftime ev (now ev w)) n"
    and "w' = snd (create_key ev n w)"
  shows "files w' bak = Some old \<and> exist_key w' n \<and>
         (\<exists>rest. new_events w w' = CopyFile (key_file n) bak # Exec genrsa_argv # rest \<and>
                  (rest = [] \<or> (\<exists>new. rest = [WriteFile (key_file n) new]))) \<and>
         ((\<exists>e. fst (create_key ev n w) = Inl e) \<longrightarrow> files w' (key_file n) = Some old)"
  using assms
  by (auto simp: create_key_def popen_def write_file_def copyfile_def exist_key_def
        isfile_def genrsa_argv_def
      split: prod.splits)


text \<open>
  C3: no operation deletes a private key. A whole pass (\<open>main_pass\<close>, its wait
  included) leaves every key file that exists in place with its content, and so does
  each single function; the one function that writes over a key, \<open>create_key\<close>, copies
  the existing key to the time-stamped backup path first, then runs the generator, then
  writes, so that the old key is in the backup whether or not the generation succeeds.
\<close>

theorem key_never_deleted_backup_first:
  assumes "bak = bak_key_file (strftime ev (now ev w)) n"
    and "w' = snd (create_key ev n w)"
    and "w'' = snd (main_pass ev cfg w)"
  shows "(exist_key w n \<longrightarrow>
            exist_key w'' n \<and> files w'' (key_file n) = files w (key_file n)) \<and>
         (files w (key_file n) = Some old \<longrightarrow>
            files w' bak = Some old \<and> exist_key w' n \<and>
            (\<exists>rest. new_events w w' = CopyFile (key_file n) bak # Exec genrsa_argv # rest \<and>
                     (rest = [] \<or> (\<exists>new. rest = [WriteFile (key_file n) new]))) \<and>
            ((\<exists>e. fst (create_key ev n w) = Inl e) \<longrightarrow> files w' (key_file n) = Some old)) \<and>
         files (snd (check_crt ev cfg m d w)) (key_file n) = files w (key_file n) \<and>
         files (snd (create_csr ev m d w)) (key_file n) = files w (key_file n) \<and>
         files (snd (create_crt ev cfg m w)) (key_file n) = files w (key_file n) \<and>
         files (snd (update_dhparam ev cfg w)) (key_file n) = files w (key_file n) \<and>
         files (notify_container ev cl w) (key_file n) = files w (key_file n) \<and>
         files (wait_phase ev w) (key_file n) = files w (key_file n)"
proof -
  have a: "exist_key w'' n \<and> files w'' (key_file n) = files w (key_file n)"
    if "exist_key w n"
    using main_pass_keeps_key [OF that, of ev cfg] that assms(3)
    by (simp add: exist_key_def isfile_def)
  have b: "files w' bak = Some old \<and> exist_key w' n \<and>
           (\<exists>rest. new_events w w' = CopyFile (key_file n) bak # Exec genrsa_argv # rest \<and>
                    (rest = [] \<or> (\<exists>new. rest = [WriteFile (key_file n) new]))) \<and>
           ((\<exists>e. fst (create_key ev n w) = Inl e) \<longrightarrow> files w' (key_file n) = Some old)"
    if "files w (key_file n) = Some old"
    using that assms(1) assms(2) by (rule create_key_backup)
  have c: "files (snd (create_csr ev m d w)) (key_file n) = files w (key_file n)"
    using create_csr_quiet [of n w ev m d] by (simp add: quiet_def)
  have e: "files (snd (create_crt ev cfg m w)) (key_file n) = files w (key_file n)"
    using create_crt_quiet [of n w ev cfg m] by (simp add: quiet_def)
  from a b c e show ?thesis
    by (simp add: update_dhparam_keeps_key wait_phase_keeps_key)
qed

theorem key_never_deleted_backup_first_witness:
  "exist_key stale_world ''www'' \<and>
   files (snd (main_pass (test_env 5 acme_ok) (test_cfg ''true'') stale_world))
     (key_file ''www'') = Some ''OLD KEY'' \<and>
   files (snd (create_key (test_env 5 acme_ok) ''www'' stale_world))
     (bak_key_file ''20240101_000000'' ''www'') = Some ''OLD KEY'' \<and>
   exist_key (snd (create_key (test_env 5 acme_ok) ''www'' stale_world)) ''www''"
proof -
  have k: "exist_key stale_world ''www''" by code_simp
  have o: "files stale_world (key_file ''www'') = Some ''OLD KEY''"
    by (simp add: stale_world_def test_defs path_defs)
  have s: "strftime (test_env 5 acme_ok) t = ''20240101_000000''" for t
    by (simp add: test_defs)
  from key_never_deleted_backup_first
         [OF refl refl refl, of stale_world "''www''" "test_env 5 acme_ok" "test_cfg ''true''"
            "''OLD KEY''"]
       k o
  show ?thesis by (simp add: s)
qed

section \<open>The exceptions the loop catches\<close>


















section \<open>The notify phase\<close>

lemma signalled_append [simp]: "signalled (xs @ ys) = signalled xs @ signalled ys"
  by (simp add: signalled_def)

lemma signalled_Nil [simp]: "signalled [] = []"
  by (simp add: signalled_def)

lemma signalled_Cons [simp]: "signalled (e # es) = sighup_target e @ signalled es"
  by (simp add: signalled_def)

lemma notify_each_trace:
  "\<exists>evs. trace (notify_each ev cs w) = trace w @ evs \<and> signalled evs = cs"
proof (induction cs arbitrary: w)
  case Nil
  then show ?case by simp
next
  case (Cons c cs)
  define w1 where "w1 = log_info (''Send SIGHUP to '' @ c) w"
  obtain rc out err where p: "run_process ev w1 [''docker'', ''kill'', ''-s'', ''SIGHUP'', c] =
      (rc, out, err)"
    by (cases "run_process ev w1 [''docker'', ''kill'', ''-s'', ''SIGHUP'', c]")
  define w2 where "w2 = emit (Exec [''docker'', ''kill'', ''-s'', ''SIGHUP'', c]) w1"
  define w3 where "w3 = (if rc \<noteq> 0 then log_error (''Docker Error: '' @ err) w2 else w2)"
  have n: "notify_each ev (c # cs) w = notify_each ev cs w3"
    using p by (simp add: w1_def w2_def w3_def popen_def Let_def)
  have t3: "\<exists>e3. trace w3 = trace w @ e3 \<and> signalled e3 = [c]"
    by (simp add: w3_def w2_def w1_def log_info_def log_error_def)
  then obtain e3 where e3: "trace w3 = trace w @ e3" "signalled e3 = [c]" by blast
  from Cons.IH [of w3] obtain evs where
    "trace (notify_each ev cs w3) = trace w3 @ evs" "signalled evs = cs" by blast
  then have "trace (notify_each ev (c # cs) w) = trace w @ (e3 @ evs) \<and>
             signalled (e3 @ evs) = c # cs"
    using n e3 by simp
  then show ?case by blast
qed

lemma notify_container_trace:
  "\<exists>evs. trace (notify_container ev cl w) = trace w @ evs \<and> signalled evs = targets cl"
  using notify_each_trace
  by (auto simp: notify_container_def targets_def split: option.splits)

lemma notify_all_trace:
  "\<exists>evs. trace (notify_all ev ns w) = trace w @ evs \<and>
         signalled evs = concat (map (\<lambda>(crt, cs). targets (Some cs)) ns)"
proof (induction ns arbitrary: w)
  case Nil
  then show ?case by simp
next
  case (Cons x ns)
  obtain crt cs where x: "x = (crt, cs)" by (cases x)
  define w1 where "w1 = log_info (''['' @ crt @ ''] Notify containers'') w"
  obtain e2 where e2: "trace (notify_container ev (Some cs) w1) = trace w1 @ e2"
      "signalled e2 = targets (Some cs)"
    using notify_container_trace by blast
  from Cons.IH [of "notify_container ev (Some cs) w1"] obtain e3 where
    e3: "trace (notify_all ev ns (notify_container ev (Some cs) w1)) =
           trace (notify_container ev (Some cs) w1) @ e3"
        "signalled e3 = concat (map (\<lambda>(crt, cs). targets (Some cs)) ns)"
    by blast
  have "trace (notify_all ev (x # ns) w) =
          trace w @ ([LogInfo (''['' @ crt @ ''] Notify containers'')] @ e2 @ e3) \<and>
        signalled ([LogInfo (''['' @ crt @ ''] Notify containers'')] @ e2 @ e3) =
          concat (map (\<lambda>(crt, cs). targets (Some cs)) (x # ns))"
    using x e2 e3 by (simp add: w1_def log_info_def)
  then show ?case by blast
qed

lemma notify_phase_signalled:
  "signalled (new_events w (notify_phase ev cfg notifies True w)) =
     targets (container_notify cfg) @ concat (map (\<lambda>(crt, cs). targets (Some cs)) notifies)"
proof -
  define w1 where "w1 = log_info ''[General] Notify containers'' w"
  define w2 where "w2 = notify_container ev (container_notify cfg) w1"
  obtain e2 where e2: "trace w2 = trace w1 @ e2" "signalled e2 = targets (container_notify cfg)"
    unfolding w2_def using notify_container_trace by blast
  obtain e3 where e3: "trace (notify_all ev notifies w2) = trace w2 @ e3"
      "signalled e3 = concat (map (\<lambda>(crt, cs). targets (Some cs)) notifies)"
    using notify_all_trace by blast
  have "trace (notify_phase ev cfg notifies True w) =
          trace w @ ([LogInfo ''[General] Notify containers''] @ e2 @ e3)"
    using e2 e3 by (simp add: notify_phase_def w1_def w2_def log_info_def)
  then have "new_events w (notify_phase ev cfg notifies True w) =
          [LogInfo ''[General] Notify containers''] @ e2 @ e3"
    by (rule new_events_append)
  then show ?thesis using e2 e3 by simp
qed

text \<open>
  C7, amended: the notify phase is given one flag, whether any certificate was issued in
  the pass. When the flag is off nothing is sent. When it is on, the containers of the
  global default list are signalled, once and first, and then the containers of every
  certificate that the file source gives notify targets for, in the order of the file,
  whether that certificate was issued or not. The flag and the world are what the renew
  loop returned.
\<close>

theorem notify_phase_all_file_targets:
  "notify_phase ev cfg notifies False w = w \<and>
   signalled (new_events w (notify_phase ev cfg notifies True w)) =
     targets (container_notify cfg) @ concat (map (\<lambda>(crt, cs). targets (Some cs)) notifies) \<and>
   (renew_and_notify ev cfg certs notifies w = (Inr changed, w') \<longrightarrow>
      (\<exists>w1. renew_all ev cfg certs False w = (Inr changed, w1) \<and>
            w' = notify_phase ev cfg notifies changed w1))"
proof -
  have a: "notify_phase ev cfg notifies False w = w"
    by (simp add: notify_phase_def)
  have b: "\<exists>w1. renew_all ev cfg certs False w = (Inr changed, w1) \<and>
                w' = notify_phase ev cfg notifies changed w1"
    if "renew_and_notify ev cfg certs notifies w = (Inr changed, w')"
    using that by (auto simp: renew_and_notify_def split: prod.splits sum.splits)
  from a b notify_phase_signalled [of w ev cfg notifies] show ?thesis by blast
qed


lemma ab_renew_a:
  "renew_cert (test_env 5 acme_ok) (test_cfg ''true'') ''a'' [''a.com''] ab_world =
     (Inr False, ab_checked)"
proof -
  have f1: "isfile ab_world (crt_file ''a'')" by code_simp
  have f2: "isfile ab_world (csr_file ''a'')" by code_simp
  have r: "run_process (test_env 5 acme_ok) ab_world (req_text_argv ''a'') =
             (0, san_dump ''DNS:a.com'', [])"
    by (simp add: test_defs ab_world_def req_text_argv_def path_defs)
  have d: "san_domains (san_dump ''DNS:a.com'') = [''a.com'']" by code_simp
  have x: "run_process (test_env 5 acme_ok) v (x509_startdate_argv ''a'') =
             (0, ''notBefore=Jan  1 00:00:00 2024 GMT'' @ [CHR 0x0A], [])" for v
    by (simp add: test_defs x509_startdate_argv_def)
  have p: "strptime (test_env 5 acme_ok) ''Jan  1 00:00:00 2024 GMT'' = Inr 0"
    by (simp add: test_defs)
  have m: "int_crt_max_age (test_env 5 acme_ok) (test_cfg ''true'') = Inr 30"
    by (simp add: test_defs int_crt_max_age_def)
  have c: "now (test_env 5 acme_ok) v = 5" for v
    by (simp add: test_defs)
  from check_crt_run [OF f1 f2 r d refl x startdate_split p m refl]
  show ?thesis by (simp add: renew_cert_def ab_checked_def c days_def)
qed

lemma ab_renew_b:
  "fst (renew_cert (test_env 5 acme_ok) (test_cfg ''true'') ''b'' [''b.com''] ab_checked) =
     Inr True"
  by code_simp

text \<open>
  C7, as the claim states it, fails: in a pass over \<open>a\<close> (valid, not issued) and
  \<open>b\<close> (issued), the notify phase signals \<open>webA\<close>, the target of the unchanged
  \<open>a\<close>.
\<close>

theorem notify_reaches_unchanged_certificate:
  "fst (renew_cert (test_env 5 acme_ok) (test_cfg ''true'') ''a'' [''a.com''] ab_world) =
     Inr False \<and>
   fst (renew_and_notify (test_env 5 acme_ok) (test_cfg ''true'')
          [(''a'', [''a.com'']), (''b'', [''b.com''])] [(''a'', ''webA'')] ab_world) =
     Inr True \<and>
   signalled
     (new_events
        (snd (renew_all (test_env 5 acme_ok) (test_cfg ''true'')
                [(''a'', [''a.com'']), (''b'', [''b.com''])] False ab_world))
        (snd (renew_and_notify (test_env 5 acme_ok) (test_cfg ''true'')
                [(''a'', [''a.com'']), (''b'', [''b.com''])] [(''a'', ''webA'')] ab_world))) =
     [''web'', ''webA'']"
proof -
  let ?E = "test_env 5 acme_ok" and ?C = "test_cfg ''true''"
  let ?certs = "[(''a'', [''a.com'']), (''b'', [''b.com''])]"
  define w2 where "w2 = snd (renew_cert ?E ?C ''b'' [''b.com''] ab_checked)"
  have b: "renew_cert ?E ?C ''b'' [''b.com''] ab_checked = (Inr True, w2)"
    unfolding w2_def using ab_renew_b by (rule pair_fst_snd)
  have l: "renew_all ?E ?C ?certs False ab_world = (Inr True, w2)"
    by (simp add: ab_renew_a b)
  have n: "renew_and_notify ?E ?C ?certs [(''a'', ''webA'')] ab_world =
             (Inr True, notify_phase ?E ?C [(''a'', ''webA'')] True w2)"
    by (simp add: renew_and_notify_def ab_renew_a b)
  have t: "targets (container_notify ?C) = [''web'']" by code_simp
  have u: "targets (Some ''webA'') = [''webA'']" by code_simp
  have s: "signalled (new_events w2 (notify_phase ?E ?C [(''a'', ''webA'')] True w2)) =
             [''web'', ''webA'']"
    by (simp add: notify_phase_signalled t u)
  from s show ?thesis
    by (simp add: ab_renew_a b n)
qed

theorem notify_phase_all_file_targets_witness:
  "renew_and_notify (test_env 5 acme_ok) (test_cfg ''true'') [(''a'', [''a.com''])]
      [(''a'', ''webA'')] ab_world = (Inr False, ab_checked) \<and>
   signalled (new_events ab_world
      (notify_phase (test_env 5 acme_ok) (test_cfg ''true'') [(''a'', ''webA,webB'')] True
         ab_world)) = [''web'', ''webA'', ''webB'']"
proof -
  let ?E = "test_env 5 acme_ok" and ?C = "test_cfg ''true''"
  have r: "renew_and_notify ?E ?C [(''a'', [''a.com''])] [(''a'', ''webA'')] ab_world =
             (Inr False, ab_checked)"
    by (simp add: renew_and_notify_def ab_renew_a notify_phase_def)
  have t: "targets (container_notify ?C) = [''web'']" by code_simp
  have u: "targets (Some ''webA,webB'') = [''webA'', ''webB'']" by code_simp
  from notify_phase_all_file_targets
         [of ?E ?C "[(''a'', ''webA,webB'')]" ab_world "[(''a'', [''a.com''])]" False ab_checked]
       r t u
  show ?thesis by simp
qed

section \<open>The aggregation of the two sources\<close>

lemma map_of_dict_set:
  "map_of (dict_set d k v) k' = (if k' = k then Some v else map_of d k')"
  by (induction d) auto

lemma load_sections_prefix:
  "\<forall>(n, l) \<in> set pre. complete_section l \<Longrightarrow>
   load_sections (pre @ rest) cn = load_sections rest (load_sections pre cn)"
proof (induction pre arbitrary: cn)
  case Nil
  then show ?case by simp
next
  case (Cons x pre)
  obtain crt look where x: "x = (crt, look)" by (cases x)
  obtain certs notifies where cn: "cn = (certs, notifies)" by (cases cn)
  from Cons.prems x obtain d t where l: "look ''domains'' = Inr d" "look ''notify'' = Inr t"
    by (auto simp: complete_section_def)
  from Cons.prems have "\<forall>(n, l) \<in> set pre. complete_section l" by simp
  then show ?case using x cn l Cons.IH by (simp add: Let_def)
qed

lemma load_sections_other:
  "crt \<notin> fst ` set secs \<Longrightarrow>
   map_of (fst (load_sections secs (certs, notifies))) crt = map_of certs crt \<and>
   map_of (snd (load_sections secs (certs, notifies))) crt = map_of notifies crt"
proof (induction secs arbitrary: certs notifies)
  case Nil
  then show ?case by simp
next
  case (Cons x secs)
  obtain n look where x: "x = (n, look)" by (cases x)
  from Cons.prems x have ne: "crt \<noteq> n" and later: "crt \<notin> fst ` set secs" by auto
  show ?case
    using x ne Cons.IH [OF later]
    by (auto simp: Let_def map_of_dict_set split: sum.splits)
qed

lemma domain_list_set: "set (domain_list v) = set (str_split v '','') - {[]}"
  by (auto simp: domain_list_def)

lemma domain_list_sorted: "sorted (domain_list v) \<and> distinct (domain_list v)"
  by (simp add: domain_list_def)

text \<open>
  C9: let the file be read, and let the section \<open>crt\<close> and the sections before it have
  both of their fields. Then, whatever the environment defines for \<open>crt\<close>, the
  aggregated mapping gives \<open>crt\<close> the domain list of the file, which is sorted, without
  duplicates and without empty strings, and the notify targets of the file.
\<close>

theorem file_entry_overrides_environment:
  assumes "configparser_read ev w (tmp_dir @ ''/crt_domains.ini'') = Inr sections"
    and "sections = pre @ (crt, look) # post"
    and "\<forall>(n, l) \<in> set pre. complete_section l"
    and "look ''domains'' = Inr ds"
    and "look ''notify'' = Inr nt"
    and "crt \<notin> fst ` set post"
  shows "map_of (fst (aggregate ev w)) crt = Some (domain_list ds) \<and>
         map_of (snd (aggregate ev w)) crt = Some nt \<and>
         sorted (domain_list ds) \<and> distinct (domain_list ds) \<and>
         set (domain_list ds) = set (str_split ds '','') - {[]}"
proof -
  define cn0 where "cn0 = (env_certs (environ ev) [], [] :: (string \<times> string) list)"
  obtain c1 n1 where p: "load_sections pre cn0 = (c1, n1)"
    by (cases "load_sections pre cn0")
  have a: "aggregate ev w = load_sections ((crt, look) # post) (c1, n1)"
    using assms(1) load_sections_prefix [OF assms(3), of "(crt, look) # post" cn0] p
    by (simp add: aggregate_def assms(2) cn0_def)
  have b: "load_sections ((crt, look) # post) (c1, n1) =
             load_sections post (dict_set c1 crt (domain_list ds), dict_set n1 crt nt)"
    using assms(4) assms(5) by (simp add: Let_def)
  from load_sections_other [OF assms(6)] a b
  have "map_of (fst (aggregate ev w)) crt = Some (domain_list ds) \<and>
        map_of (snd (aggregate ev w)) crt = Some nt"
    by (simp add: map_of_dict_set)
  then show ?thesis
    using domain_list_set domain_list_sorted by simp
qed

theorem file_entry_overrides_environment_witness:
  "map_of (env_certs (environ (test_env 5 acme_ok)) []) ''www'' = Some [''old.com''] \<and>
   map_of (fst (aggregate (test_env 5 acme_ok) bare_world)) ''www'' =
     Some [''a.com'', ''b.com''] \<and>
   map_of (snd (aggregate (test_env 5 acme_ok) bare_world)) ''www'' = Some ''web1,web2''"
proof -
  have e: "map_of (env_certs (environ (test_env 5 acme_ok)) []) ''www'' = Some [''old.com'']"
    by code_simp
  have r: "configparser_read (test_env 5 acme_ok) bare_world (tmp_dir @ ''/crt_domains.ini'') =
             Inr [(''www'', test_look)]"
    by (simp add: test_defs)
  have s: "[(''www'', test_look)] = [] @ (''www'', test_look) # []" by simp
  have p: "\<forall>(n, l) \<in> set ([] :: (string \<times> (string \<Rightarrow> py_error + string)) list).
             complete_section l"
    by simp
  have d: "test_look ''domains'' = Inr ''b.com,a.com,,a.com''"
    by (simp add: test_look_def)
  have n: "test_look ''notify'' = Inr ''web1,web2''"
    by (simp add: test_look_def)
  have q: "''www'' \<notin> fst ` set ([] :: (string \<times> (string \<Rightarrow> py_error + string)) list)"
    by simp
  have l: "domain_list ''b.com,a.com,,a.com'' = [''a.com'', ''b.com'']"
    by code_simp
  from file_entry_overrides_environment [OF r s p d n q] e l
  show ?thesis by simp
qed

end
